theory Spec2Isabelle
  imports Complex_Main "HOL-Library.AList"
begin

section \<open>The DROID-SLAM distributed training script (train.py)\<close>

text \<open>
  The script drives external collaborators (the network, the loss functions, the Lie-group
  library, the optimizer, the samplers, the experiment tracker). The embedding keeps the
  script's own control flow and data flow; every collaborator is a parameter, and every
  effectful call on a collaborator is appended to a trace, in program order. Python floats
  are modelled as reals.
\<close>

subsection \<open>Frame graphs\<close>

text \<open>
  A frame graph is an \<^verbatim>\<open>OrderedDict\<close> from a frame index to the list of its neighbours:
  an association list in insertion order, where assigning to an existing key replaces its
  value in place (\<^const>\<open>AList.update\<close>).
\<close>

type_synonym graph = "(int \<times> int list) list"

text \<open>\<^verbatim>\<open>range(N)\<close> for a Python int \<open>N\<close>: empty when \<open>N \<le> 0\<close>.\<close>

definition py_range :: "int \<Rightarrow> int list" where
  "py_range N = [0..N - 1]"

text \<open>Lines 127-129, the else branch of the training graph choice:
  \<^verbatim>\<open>graph = OrderedDict()
  for i in range(N):
      graph[i] = [j for j in range(N) if i!=j and abs(i-j) <= 2]\<close>\<close>

definition window_graph :: "int \<Rightarrow> graph" where
  "window_graph N =
     fold (\<lambda>i graph. AList.update i [j \<leftarrow> py_range N. i \<noteq> j \<and> \<bar>i - j\<bar> \<le> 2] graph)
       (py_range N) []"

text \<open>Lines 192-194, the same loop written a second time for validation:
  \<^verbatim>\<open>val_graph = OrderedDict()
  for i in range(N):
      val_graph[i] = [j for j in range(N) if i!=j and abs(i-j) <= 2]\<close>\<close>

definition val_window_graph :: "int \<Rightarrow> graph" where
  "val_window_graph N =
     fold (\<lambda>i val_graph. AList.update i [j \<leftarrow> py_range N. i \<noteq> j \<and> \<bar>i - j\<bar> \<le> 2] val_graph)
       (py_range N) []"

subsection \<open>Data\<close>

text \<open>The Python exceptions the script itself can raise (an unbound local is a \<open>NameError\<close>).\<close>

datatype py_error = NameError | IndexError | ZeroDivisionError | TypeError

text \<open>
  Tensors are nested lists: inverse-depth maps have shape batch \<open>\<times>\<close> frames \<open>\<times>\<close> height \<open>\<times>\<close>
  width, intrinsics batch \<open>\<times>\<close> frames \<open>\<times>\<close> 4, pose sets batch \<open>\<times>\<close> frames over an abstract
  pose type \<open>'p\<close>. Images (\<open>'i\<close>) and residual maps (\<open>'r\<close>) are only passed through.
  A metrics dictionary maps names to floats; \<^verbatim>\<open>d.get(k)\<close> is application.
\<close>

type_synonym disp_t = "real list list list list"
type_synonym intr_t = "real list list list"
type_synonym metrics = "string \<Rightarrow> real option"

text \<open>One element of a data loader: \<^verbatim>\<open>images, poses, disps, intrinsics\<close> (line 116).\<close>

record ('p, 'i) item =
  images :: 'i
  poses :: "'p list list"
  disps :: disp_t
  intrinsics :: intr_t

text \<open>The dictionary of the per-step \<^verbatim>\<open>wandb.log\<close> call (lines 240-251).\<close>

record train_log =
  log_geo_loss :: real
  log_res_loss :: real
  log_flo_loss :: real
  log_loss :: real
  log_lr :: real
  log_rot_error :: "real option"
  log_tr_error :: "real option"
  log_flo_error :: "real option"

text \<open>
  The calls the script makes on its collaborators, with the arguments that matter:
  \<open>ModelCall Gs images disp0 intrinsics0 graph num_steps fixedp\<close> is a forward pass,
  \<open>GeodesicLossCall graph do_scale\<close> and \<open>FlowLossCall graph\<close> are loss evaluations,
  \<open>Backward loss\<close> is \<^verbatim>\<open>loss.backward()\<close>, \<open>AllReduceSum t\<close> is a SUM all-reduce to which this
  process contributes \<open>t\<close>, \<open>WandbLogVal rot tr f step\<close> and \<open>WandbLogTrain d step\<close> are the
  two \<^verbatim>\<open>wandb.log\<close> calls, \<open>TorchSave step\<close> is the checkpoint write.
\<close>

datatype ('p, 'i) event =
    ZeroGrad
  | ModelCall "'p list list" 'i disp_t intr_t graph int int
  | GeodesicLossCall graph "bool option"
  | ResidualLossCall
  | FlowLossCall graph
  | Backward real
  | ClipGradNorm real
  | OptimizerStep
  | SchedulerStep
  | ModelEval
  | ModelTrain
  | Barrier
  | AllReduceSum real
  | WandbLogVal real real real int
  | WandbLogTrain train_log int
  | LoggerPush metrics
  | TorchSave int

text \<open>
  The collaborators, as parameters. The network's weights, gradients and mode are changed
  by the traced calls, so its output is a function of the trace so far and of the call's
  arguments; likewise the optimizer's current learning rate. \<open>rng_random\<close> is
  \<^verbatim>\<open>Generator.random()\<close>: a draw and the generator's next state; \<open>default_rng\<close> is
  \<^verbatim>\<open>np.random.default_rng(seed)\<close>.
\<close>

record ('p, 'i, 'r, 'g) collab =
  se3_inv :: "'p \<Rightarrow> 'p"
  se3_identity :: 'p
  build_frame_graph :: "'p list list \<Rightarrow> disp_t \<Rightarrow> intr_t \<Rightarrow> int \<Rightarrow> graph"
  droid_net :: "('p, 'i) event list \<Rightarrow> 'p list list \<Rightarrow> 'i \<Rightarrow> disp_t \<Rightarrow> intr_t \<Rightarrow> graph
                 \<Rightarrow> int \<Rightarrow> int \<Rightarrow> 'p list list list \<times> disp_t list \<times> 'r"
  geodesic_loss :: "'p list list \<Rightarrow> 'p list list list \<Rightarrow> graph \<Rightarrow> bool option
                 \<Rightarrow> real \<times> metrics"
  residual_loss :: "'r \<Rightarrow> real \<times> metrics"
  flow_loss :: "'p list list \<Rightarrow> disp_t \<Rightarrow> 'p list list list \<Rightarrow> disp_t list \<Rightarrow> intr_t
                 \<Rightarrow> graph \<Rightarrow> real \<times> metrics"
  rng_random :: "'g \<Rightarrow> real \<times> 'g"
  default_rng :: "nat \<Rightarrow> 'g"
  optimizer_lr :: "('p, 'i) event list \<Rightarrow> real"

text \<open>The numeric options of the argument parser (lines 282-300) and \<^verbatim>\<open>args.world_size\<close>.\<close>

record args =
  gpus :: int
  batch :: int
  iters :: int
  steps :: int
  lr :: real
  clip :: real
  n_frames :: int
  w1 :: real
  w2 :: real
  w3 :: real
  fmin :: real
  fmax :: real
  edges :: int
  restart_prob :: real
  world_size :: int

text \<open>
  The local variables of \<^verbatim>\<open>train\<close> that live across loop iterations, and the trace.
  A variable that may be read while unbound is an option (\<open>None\<close>: unbound); \<open>rot_error\<close>,
  \<open>tr_error\<close> and \<open>f_error\<close> hold the result of \<^verbatim>\<open>metrics.get\<close>, which may be Python's
  \<open>None\<close>.
\<close>

record ('p, 'i, 'g) tstate =
  rng :: 'g
  total_steps :: int
  should_keep_training :: bool
  trace :: "('p, 'i) event list"
  graph_var :: "graph option"
  Gs :: "'p list list"
  disp0 :: disp_t
  geo_loss :: "real option"
  res_loss :: "real option"
  flo_loss :: "real option"
  loss :: "real option"
  geo_metrics :: "metrics option"
  res_metrics :: "metrics option"
  flo_metrics :: "metrics option"
  metrics_var :: metrics
  rot_error :: "real option"
  tr_error :: "real option"
  f_error :: "real option"
  val_rot_error :: real
  val_tr_error :: real
  val_f_error :: real
  v_batch :: "int option"
  tensor_val_rot_err :: "real option"
  tensor_val_tr_err :: "real option"
  tensor_val_f_err :: "real option"

text \<open>A raised exception carries the state at the point of the raise.\<close>

type_synonym ('p, 'i, 'g) outcome = "(py_error \<times> ('p, 'i, 'g) tstate) + ('p, 'i, 'g) tstate"

definition emit :: "('p, 'i) event \<Rightarrow> ('p, 'i, 'g) tstate \<Rightarrow> ('p, 'i, 'g) tstate" where
  "emit e st = st\<lparr>trace := trace st @ [e]\<rparr>"

subsection \<open>Initial estimates (lines 119-120, 132-134 and 184-190)\<close>

text \<open>\<^verbatim>\<open>xs[start::step]\<close> for \<open>start \<ge> 0\<close> and \<open>step > 0\<close>.\<close>

definition py_slice_from_step :: "nat \<Rightarrow> nat \<Rightarrow> 'a list \<Rightarrow> 'a list" where
  "py_slice_from_step start step xs =
     map (nth xs) [k \<leftarrow> [0..<length xs]. start \<le> k \<and> (k - start) mod step = 0]"

text \<open>\<^verbatim>\<open>d[:,:,3::8,3::8]\<close>\<close>

definition downsample :: "disp_t \<Rightarrow> disp_t" where
  "downsample d =
     map (map (\<lambda>hw. map (py_slice_from_step 3 8) (py_slice_from_step 3 8 hw))) d"

definition ones_like :: "disp_t \<Rightarrow> disp_t" where
  "ones_like d = map (map (map (map (\<lambda>_. 1)))) d"

text \<open>\<^verbatim>\<open>Ps = SE3(poses).inv()\<close> and \<^verbatim>\<open>Gs = SE3.IdentityLike(Ps)\<close>\<close>

definition se3_inv_all :: "('p, 'i, 'r, 'g) collab \<Rightarrow> 'p list list \<Rightarrow> 'p list list" where
  "se3_inv_all c ps = map (map (se3_inv c)) ps"

definition identity_like :: "('p, 'i, 'r, 'g) collab \<Rightarrow> 'p list list \<Rightarrow> 'p list list" where
  "identity_like c Ps = map (map (\<lambda>_. se3_identity c)) Ps"

text \<open>
  \<^verbatim>\<open>Gs.data[:,0] = Ps.data[:,0].clone()\<close> then \<^verbatim>\<open>Gs.data[:,1:] = Ps.data[:,[1]].clone()\<close>:
  index 0, then index 1, must exist along the frame dimension; the second assignment
  broadcasts frame 1 over frames \<open>1, ..., N - 1\<close>.
\<close>

definition set_frame0 :: "'p list list \<Rightarrow> 'p list list \<Rightarrow> py_error + 'p list list" where
  "set_frame0 G Ps =
     (if list_ex (\<lambda>row. length row < 1) Ps then Inl IndexError
      else Inr (map2 (\<lambda>g row. g[0 := row ! 0]) G Ps))"

definition set_frames_from1 :: "'p list list \<Rightarrow> 'p list list \<Rightarrow> py_error + 'p list list" where
  "set_frames_from1 G Ps =
     (if list_ex (\<lambda>row. length row < 2) Ps then Inl IndexError
      else Inr (map2 (\<lambda>g row. take 1 g @ replicate (length g - 1) (row ! 1)) G Ps))"

text \<open>Lines 120, 132-134 (training) and 185, 188-190 (validation), which read the same.\<close>

definition init_estimates ::
  "('p, 'i, 'r, 'g) collab \<Rightarrow> 'p list list \<Rightarrow> disp_t \<Rightarrow> ('p, 'i, 'g) tstate
     \<Rightarrow> ('p, 'i, 'g) outcome" where
  "init_estimates c Ps ds st =
     (let st = st\<lparr>Gs := identity_like c Ps\<rparr> in
      case set_frame0 (Gs st) Ps of
        Inl e \<Rightarrow> Inl (e, st)
      | Inr G \<Rightarrow>
          (let st = st\<lparr>Gs := G\<rparr> in
           case set_frames_from1 (Gs st) Ps of
             Inl e \<Rightarrow> Inl (e, st)
           | Inr G \<Rightarrow> Inr (st\<lparr>Gs := G, disp0 := ones_like (downsample ds)\<rparr>)))"

definition scale_intrinsics :: "intr_t \<Rightarrow> intr_t" where
  "scale_intrinsics intr = map (map (map (\<lambda>x. x / 8))) intr"

definition py_last :: "'a list \<Rightarrow> py_error + 'a" where
  "py_last xs = (if xs = [] then Inl IndexError else Inr (last xs))"

subsection \<open>One refinement round (lines 139-153)\<close>

definition refinement_round ::
  "('p, 'i, 'r, 'g) collab \<Rightarrow> args \<Rightarrow> ('p, 'i) item \<Rightarrow> 'p list list \<Rightarrow> graph
     \<Rightarrow> ('p, 'i, 'g) tstate \<Rightarrow> ('p, 'i, 'g) outcome" where
  "refinement_round c a it Ps gr st =
     (let intrinsics0 = scale_intrinsics (intrinsics it) in
      case droid_net c (trace st) (Gs st) (images it) (disp0 st) intrinsics0 gr (iters a) 2 of
        (poses_est, disps_est, residuals) \<Rightarrow>
      let st = emit (ModelCall (Gs st) (images it) (disp0 st) intrinsics0 gr (iters a) 2) st in
      case geodesic_loss c Ps poses_est gr (Some False) of (gl, gm) \<Rightarrow>
      let st = emit (GeodesicLossCall gr (Some False)) st in
      case residual_loss c residuals of (rl, rm) \<Rightarrow>
      let st = emit ResidualLossCall st in
      case flow_loss c Ps (disps it) poses_est disps_est (intrinsics it) gr of (fl, fm) \<Rightarrow>
      let st = emit (FlowLossCall gr) st;
          l = w1 a * gl + w2 a * rl + w3 a * fl;
          st = st\<lparr>geo_loss := Some gl, res_loss := Some rl, flo_loss := Some fl, loss := Some l,
                  geo_metrics := Some gm, res_metrics := Some rm, flo_metrics := Some fm\<rparr>;
          st = emit (Backward l) st in
      case py_last poses_est of
        Inl e \<Rightarrow> Inl (e, st)
      | Inr G \<Rightarrow>
          (let st = st\<lparr>Gs := G\<rparr> in
           case py_last disps_est of
             Inl e \<Rightarrow> Inl (e, st)
           | Inr d \<Rightarrow> Inr (st\<lparr>disp0 := downsample d\<rparr>)))"

subsection \<open>The random-restart loop (lines 137-153)\<close>

text \<open>
  \<^verbatim>\<open>r = 0
  while r < args.restart_prob:
      r = rng.random()
      ...\<close>
  The loop need not terminate; \<open>None\<close> is the run that never leaves it.
\<close>

partial_function (option) restart_loop ::
  "('p, 'i, 'r, 'g) collab \<Rightarrow> args \<Rightarrow> ('p, 'i) item \<Rightarrow> 'p list list \<Rightarrow> graph \<Rightarrow> real
     \<Rightarrow> ('p, 'i, 'g) tstate \<Rightarrow> ('p, 'i, 'g) outcome option" where
  "restart_loop c a it Ps gr r st =
     (if r < restart_prob a then
        (case rng_random c (rng st) of (r', g') \<Rightarrow>
           (case refinement_round c a it Ps gr (st\<lparr>rng := g'\<rparr>) of
              Inl e \<Rightarrow> Some (Inl e)
            | Inr st' \<Rightarrow> restart_loop c a it Ps gr r' st'))
      else Some (Inr st))"

subsection \<open>The validation pass (lines 172-235)\<close>

text \<open>The body of the validation loop, lines 181-209.\<close>

definition val_body ::
  "('p, 'i, 'r, 'g) collab \<Rightarrow> args \<Rightarrow> ('p, 'i) item \<Rightarrow> ('p, 'i, 'g) tstate
     \<Rightarrow> ('p, 'i, 'g) outcome" where
  "val_body c a val_item st =
     (let Ps = se3_inv_all c (poses val_item) in
      case init_estimates c Ps (disps val_item) st of
        Inl e \<Rightarrow> Inl e
      | Inr st \<Rightarrow>
      let val_graph = val_window_graph (n_frames a);
          intrinsics0 = scale_intrinsics (intrinsics val_item) in
      case droid_net c (trace st) (Gs st) (images val_item) (disp0 st) intrinsics0 val_graph
             (iters a) 2 of
        (poses_est, disps_est, residuals) \<Rightarrow>
      let st = emit (ModelCall (Gs st) (images val_item) (disp0 st) intrinsics0 val_graph
                       (iters a) 2) st in
      case graph_var st of
        None \<Rightarrow> Inl (NameError, st)
      | Some gr \<Rightarrow>
      case geodesic_loss c Ps poses_est gr None of (val_geo_loss, val_geo_metrics) \<Rightarrow>
      let st = emit (GeodesicLossCall gr None) st in
      case flow_loss c Ps (disps val_item) poses_est disps_est (intrinsics val_item) val_graph of
        (val_flo_loss, val_flo_metrics) \<Rightarrow>
      let st = emit (FlowLossCall val_graph) st in
      case val_geo_metrics ''rot_error'' of
        None \<Rightarrow> Inl (TypeError, st)
      | Some x \<Rightarrow>
      let st = st\<lparr>val_rot_error := val_rot_error st + x\<rparr> in
      case val_geo_metrics ''tr_error'' of
        None \<Rightarrow> Inl (TypeError, st)
      | Some y \<Rightarrow>
      let st = st\<lparr>val_tr_error := val_tr_error st + y\<rparr> in
      case val_flo_metrics ''f_error'' of
        None \<Rightarrow> Inl (TypeError, st)
      | Some z \<Rightarrow>
      let st = st\<lparr>val_f_error := val_f_error st + z\<rparr> in
      Inr (st\<lparr>tensor_val_rot_err := Some (val_rot_error st),
              tensor_val_tr_err := Some (val_tr_error st),
              tensor_val_f_err := Some (val_f_error st)\<rparr>))"

text \<open>
  \<^verbatim>\<open>for v_batch, val_item in enumerate(val_loader):
      if v_batch == 500:
          break
      ...\<close>\<close>

fun val_loop ::
  "('p, 'i, 'r, 'g) collab \<Rightarrow> args \<Rightarrow> int \<Rightarrow> ('p, 'i) item list \<Rightarrow> ('p, 'i, 'g) tstate
     \<Rightarrow> ('p, 'i, 'g) outcome" where
  "val_loop c a i [] st = Inr st"
| "val_loop c a i (val_item # rest) st =
     (let st = st\<lparr>v_batch := Some i\<rparr> in
      if i = 500 then Inr st
      else case val_body c a val_item st of
             Inl e \<Rightarrow> Inl e
           | Inr st' \<Rightarrow> val_loop c a (i + 1) rest st')"

text \<open>Lines 172-209: switch to evaluation mode, clear the accumulators, run the loop.\<close>

definition val_local ::
  "('p, 'i, 'r, 'g) collab \<Rightarrow> args \<Rightarrow> ('p, 'i) item list \<Rightarrow> ('p, 'i, 'g) tstate
     \<Rightarrow> ('p, 'i, 'g) outcome" where
  "val_local c a val_loader st =
     (let st = emit ModelEval st;
          st = st\<lparr>val_rot_error := 0, val_tr_error := 0, val_f_error := 0\<rparr>
      in val_loop c a 0 val_loader st)"

text \<open>
  Lines 214-235. \<open>peers\<close> holds what the other processes contribute to the three
  all-reduces (rotation, translation, flow); a SUM all-reduce overwrites the tensor with
  the sum of all contributions. A Python float divided by zero raises.
\<close>

definition val_reduce ::
  "int \<Rightarrow> args \<Rightarrow> (real \<times> real \<times> real) list \<Rightarrow> ('p, 'i, 'g) tstate \<Rightarrow> ('p, 'i, 'g) outcome" where
  "val_reduce gpu a peers st =
     (let st = emit Barrier st in
      case tensor_val_rot_err st of
        None \<Rightarrow> Inl (NameError, st)
      | Some t1 \<Rightarrow>
      let st = (emit (AllReduceSum t1) st)
                 \<lparr>tensor_val_rot_err := Some (t1 + sum_list (map fst peers))\<rparr> in
      case tensor_val_tr_err st of
        None \<Rightarrow> Inl (NameError, st)
      | Some t2 \<Rightarrow>
      let st = (emit (AllReduceSum t2) st)
                 \<lparr>tensor_val_tr_err := Some (t2 + sum_list (map (fst \<circ> snd) peers))\<rparr> in
      case tensor_val_f_err st of
        None \<Rightarrow> Inl (NameError, st)
      | Some t3 \<Rightarrow>
      let st = (emit (AllReduceSum t3) st)
                 \<lparr>tensor_val_f_err := Some (t3 + sum_list (map (snd \<circ> snd) peers))\<rparr> in
      case v_batch st of
        None \<Rightarrow> Inl (NameError, st)
      | Some vb \<Rightarrow>
      if vb * world_size a = 0 then Inl (ZeroDivisionError, st)
      else
        let st = st\<lparr>val_rot_error := val_rot_error st / real_of_int (vb * world_size a)\<rparr>;
            st = st\<lparr>val_tr_error := val_tr_error st / real_of_int (vb * world_size a)\<rparr>;
            st = st\<lparr>val_f_error := val_f_error st / real_of_int (vb * world_size a)\<rparr>;
            st = (if gpu = 0
                  then emit (WandbLogVal (val_rot_error st) (val_tr_error st) (val_f_error st)
                               (total_steps st)) st
                  else st)
        in Inr (emit ModelTrain st))"

definition validation ::
  "('p, 'i, 'r, 'g) collab \<Rightarrow> int \<Rightarrow> args \<Rightarrow> ('p, 'i) item list \<Rightarrow> (real \<times> real \<times> real) list
     \<Rightarrow> ('p, 'i, 'g) tstate \<Rightarrow> ('p, 'i, 'g) outcome" where
  "validation c gpu a val_loader peers st =
     (case val_local c a val_loader st of
        Inl e \<Rightarrow> Inl e
      | Inr st \<Rightarrow> val_reduce gpu a peers st)"

text \<open>
  The process group during one validation pass: rank \<open>k\<close> is the \<open>k\<close>-th entry of \<open>ranks\<close>,
  its validation loader and its state. Every rank runs its local loop; the collectives
  complete only if every rank reaches them with its three tensors bound (\<open>None\<close>: the
  group hangs); then each rank's all-reduces see the tensors of all the other ranks.
\<close>

definition contribution :: "('p, 'i, 'g) outcome \<Rightarrow> (real \<times> real \<times> real) option" where
  "contribution l =
     (case l of
        Inl _ \<Rightarrow> None
      | Inr st \<Rightarrow>
          (case tensor_val_rot_err st of None \<Rightarrow> None | Some x \<Rightarrow>
           case tensor_val_tr_err st of None \<Rightarrow> None | Some y \<Rightarrow>
           case tensor_val_f_err st of None \<Rightarrow> None | Some z \<Rightarrow> Some (x, y, z)))"

definition spmd_validation ::
  "('p, 'i, 'r, 'g) collab \<Rightarrow> args \<Rightarrow> (('p, 'i) item list \<times> ('p, 'i, 'g) tstate) list
     \<Rightarrow> ('p, 'i, 'g) outcome list option" where
  "spmd_validation c a ranks =
     (let locals = map (\<lambda>(val_loader, st). val_local c a val_loader st) ranks in
      if list_all (\<lambda>l. contribution l \<noteq> None) locals
      then Some (map (\<lambda>k. case locals ! k of
                            Inl e \<Rightarrow> Inl e
                          | Inr st \<Rightarrow>
                              val_reduce (int k) a
                                (map (the \<circ> contribution) (take k locals @ drop (Suc k) locals)) st)
                   [0..<length locals])
      else None)"

subsection \<open>One outer training step (lines 114-266)\<close>

text \<open>Lines 239-252, executed by rank 0 only.\<close>

definition log_step ::
  "('p, 'i, 'r, 'g) collab \<Rightarrow> ('p, 'i, 'g) tstate \<Rightarrow> ('p, 'i, 'g) outcome" where
  "log_step c st =
     (case geo_loss st of None \<Rightarrow> Inl (NameError, st) | Some gl \<Rightarrow>
      case res_loss st of None \<Rightarrow> Inl (NameError, st) | Some rl \<Rightarrow>
      case flo_loss st of None \<Rightarrow> Inl (NameError, st) | Some fl \<Rightarrow>
      case loss st of None \<Rightarrow> Inl (NameError, st) | Some l \<Rightarrow>
      let st = emit (WandbLogTrain
                 \<lparr>log_geo_loss = gl, log_res_loss = rl, log_flo_loss = fl, log_loss = l,
                  log_lr = optimizer_lr c (trace st), log_rot_error = rot_error st,
                  log_tr_error = tr_error st, log_flo_error = f_error st\<rparr>
                 (total_steps st)) st
      in Inr (emit (LoggerPush (metrics_var st)) st))"

text \<open>Lines 156-266: what follows the restart loop.\<close>

definition finish_step ::
  "('p, 'i, 'r, 'g) collab \<Rightarrow> int \<Rightarrow> args \<Rightarrow> ('p, 'i) item list \<Rightarrow> (real \<times> real \<times> real) list
     \<Rightarrow> ('p, 'i, 'g) tstate \<Rightarrow> ('p, 'i, 'g) outcome" where
  "finish_step c gpu a val_loader peers st =
     (let st = emit (ClipGradNorm (clip a)) st;
          st = emit OptimizerStep st;
          st = emit SchedulerStep st;
          st = st\<lparr>metrics_var := Map.empty\<rparr> in
      case geo_metrics st of None \<Rightarrow> Inl (NameError, st) | Some gm \<Rightarrow>
      let st = st\<lparr>metrics_var := metrics_var st ++ gm\<rparr> in
      case res_metrics st of None \<Rightarrow> Inl (NameError, st) | Some rm \<Rightarrow>
      let st = st\<lparr>metrics_var := metrics_var st ++ rm\<rparr> in
      case flo_metrics st of None \<Rightarrow> Inl (NameError, st) | Some fm \<Rightarrow>
      let st = st\<lparr>metrics_var := metrics_var st ++ fm\<rparr>;
          st = st\<lparr>rot_error := metrics_var st ''rot_error''\<rparr>;
          st = st\<lparr>tr_error := metrics_var st ''tr_error''\<rparr>;
          st = st\<lparr>f_error := metrics_var st ''f_error''\<rparr> in
      case (if total_steps st \<noteq> 0 \<and> total_steps st mod 5000 = 0
            then validation c gpu a val_loader peers st else Inr st) of
        Inl e \<Rightarrow> Inl e
      | Inr st \<Rightarrow>
      let st = st\<lparr>total_steps := total_steps st + 1\<rparr> in
      case (if gpu = 0 then log_step c st else Inr st) of
        Inl e \<Rightarrow> Inl e
      | Inr st \<Rightarrow>
      let st = (if total_steps st mod 10000 = 0 \<and> gpu = 0
                then emit (TorchSave (total_steps st)) st else st)
      in Inr (if total_steps st \<ge> steps a then st\<lparr>should_keep_training := False\<rparr> else st))"

text \<open>
  Lines 122-129. \<open>coin\<close> is the value of \<^verbatim>\<open>np.random.rand()\<close> at line 123 (the global
  NumPy generator, which the script does not seed).
\<close>

definition choose_graph ::
  "('p, 'i, 'r, 'g) collab \<Rightarrow> args \<Rightarrow> real \<Rightarrow> ('p, 'i) item \<Rightarrow> graph" where
  "choose_graph c a coin it =
     (if coin < 0.5
      then build_frame_graph c (poses it) (disps it) (intrinsics it) (edges a)
      else window_graph (n_frames a))"

text \<open>Lines 114-153 followed by lines 156-266.\<close>

definition train_step ::
  "('p, 'i, 'r, 'g) collab \<Rightarrow> int \<Rightarrow> args \<Rightarrow> ('p, 'i) item list \<Rightarrow> real
     \<Rightarrow> (real \<times> real \<times> real) list \<Rightarrow> ('p, 'i) item \<Rightarrow> ('p, 'i, 'g) tstate
     \<Rightarrow> ('p, 'i, 'g) outcome option" where
  "train_step c gpu a val_loader coin peers it st =
     (let st = emit ZeroGrad st;
          Ps = se3_inv_all c (poses it);
          gr = choose_graph c a coin it;
          st = st\<lparr>graph_var := Some gr\<rparr> in
      case init_estimates c Ps (disps it) st of
        Inl e \<Rightarrow> Some (Inl e)
      | Inr st \<Rightarrow>
          (case restart_loop c a it Ps gr 0 st of
             None \<Rightarrow> None
           | Some (Inl e) \<Rightarrow> Some (Inl e)
           | Some (Inr st) \<Rightarrow> Some (finish_step c gpu a val_loader peers st)))"

subsection \<open>The training loops (lines 50, 99-100, 112-113)\<close>

text \<open>What one iteration of the training loader supplies to a step, with the step's
  environment: the coin of line 123 and the other processes' all-reduce contributions.\<close>

record ('p, 'i) step_input =
  coin_of :: real
  peers_of :: "(real \<times> real \<times> real) list"
  item_of :: "('p, 'i) item"

text \<open>\<^verbatim>\<open>for i_batch, item in enumerate(train_loader)\<close>, left by the \<^verbatim>\<open>break\<close> of line 266.\<close>

fun train_epoch ::
  "('p, 'i, 'r, 'g) collab \<Rightarrow> int \<Rightarrow> args \<Rightarrow> ('p, 'i) item list \<Rightarrow> ('p, 'i) step_input list
     \<Rightarrow> ('p, 'i, 'g) tstate \<Rightarrow> ('p, 'i, 'g) outcome option" where
  "train_epoch c gpu a val_loader [] st = Some (Inr st)"
| "train_epoch c gpu a val_loader (x # xs) st =
     (case train_step c gpu a val_loader (coin_of x) (peers_of x) (item_of x) st of
        None \<Rightarrow> None
      | Some (Inl e) \<Rightarrow> Some (Inl e)
      | Some (Inr st') \<Rightarrow>
          if total_steps st' \<ge> steps a then Some (Inr st')
          else train_epoch c gpu a val_loader xs st')"

text \<open>\<^verbatim>\<open>while should_keep_training\<close>; \<open>epochs n\<close> is what the loader yields in its \<open>n\<close>-th
  iteration.\<close>

partial_function (option) train_loop ::
  "('p, 'i, 'r, 'g) collab \<Rightarrow> int \<Rightarrow> args \<Rightarrow> ('p, 'i) item list
     \<Rightarrow> (nat \<Rightarrow> ('p, 'i) step_input list) \<Rightarrow> nat \<Rightarrow> ('p, 'i, 'g) tstate
     \<Rightarrow> ('p, 'i, 'g) outcome option" where
  "train_loop c gpu a val_loader epochs n st =
     (if should_keep_training st then
        (case train_epoch c gpu a val_loader (epochs n) st of
           None \<Rightarrow> None
         | Some (Inl e) \<Rightarrow> Some (Inl e)
         | Some (Inr st') \<Rightarrow> train_loop c gpu a val_loader epochs (Suc n) st')
      else Some (Inr st))"

text \<open>
  The state on entry to the loop of line 112. Line 50 creates the restart generator,
  \<^verbatim>\<open>rng = np.random.default_rng(12345)\<close>; the rank \<open>gpu\<close> is an argument of \<^verbatim>\<open>train\<close>.
\<close>

definition initial_state :: "('p, 'i, 'r, 'g) collab \<Rightarrow> int \<Rightarrow> ('p, 'i, 'g) tstate" where
  "initial_state c gpu =
     \<lparr>rng = default_rng c 12345, total_steps = 0, should_keep_training = True, trace = [],
      graph_var = None, Gs = [], disp0 = [],
      geo_loss = None, res_loss = None, flo_loss = None, loss = None,
      geo_metrics = None, res_metrics = None, flo_metrics = None,
      metrics_var = Map.empty, rot_error = None, tr_error = None, f_error = None,
      val_rot_error = 0, val_tr_error = 0, val_f_error = 0,
      v_batch = None, tensor_val_rot_err = None, tensor_val_tr_err = None,
      tensor_val_f_err = None\<rparr>"

definition train ::
  "('p, 'i, 'r, 'g) collab \<Rightarrow> int \<Rightarrow> args \<Rightarrow> ('p, 'i) item list
     \<Rightarrow> (nat \<Rightarrow> ('p, 'i) step_input list) \<Rightarrow> ('p, 'i, 'g) outcome option" where
  "train c gpu a val_loader epochs = train_loop c gpu a val_loader epochs 0 (initial_state c gpu)"

subsection \<open>The command line (lines 276-312)\<close>

text \<open>The options given on the command line, already converted by their \<^verbatim>\<open>type=\<close>;
  \<open>None\<close> is an option that was not given.\<close>

record cli =
  cli_gpus :: "int option"
  cli_batch :: "int option"
  cli_iters :: "int option"
  cli_steps :: "int option"
  cli_lr :: "real option"
  cli_clip :: "real option"
  cli_n_frames :: "int option"
  cli_w1 :: "real option"
  cli_w2 :: "real option"
  cli_w3 :: "real option"
  cli_fmin :: "real option"
  cli_fmax :: "real option"
  cli_edges :: "int option"
  cli_restart_prob :: "real option"

definition with_default :: "'a \<Rightarrow> 'a option \<Rightarrow> 'a" where
  "with_default d v = (case v of None \<Rightarrow> d | Some x \<Rightarrow> x)"

text \<open>\<^verbatim>\<open>args = parser.parse_args()\<close> followed by \<^verbatim>\<open>args.world_size = args.gpus\<close>. No option has
  \<^verbatim>\<open>choices\<close> or a range check.\<close>

definition parse_args :: "cli \<Rightarrow> args" where
  "parse_args cl =
     \<lparr>gpus = with_default 4 (cli_gpus cl),
      batch = with_default 1 (cli_batch cl),
      iters = with_default 15 (cli_iters cl),
      steps = with_default 250000 (cli_steps cl),
      lr = with_default (25 / 100000) (cli_lr cl),
      clip = with_default (25 / 10) (cli_clip cl),
      n_frames = with_default 7 (cli_n_frames cl),
      w1 = with_default 10 (cli_w1 cl),
      w2 = with_default 0 (cli_w2 cl),
      w3 = with_default 0 (cli_w3 cl),
      fmin = with_default 8 (cli_fmin cl),
      fmax = with_default 96 (cli_fmax cl),
      edges = with_default 24 (cli_edges cl),
      restart_prob = with_default (2 / 10) (cli_restart_prob cl),
      world_size = with_default 4 (cli_gpus cl)\<rparr>"

text \<open>\<^verbatim>\<open>mp.spawn(train, nprocs=args.gpus, args=(args,))\<close>: the run of rank \<open>gpu\<close>.\<close>

definition main ::
  "('p, 'i, 'r, 'g) collab \<Rightarrow> cli \<Rightarrow> int \<Rightarrow> ('p, 'i) item list
     \<Rightarrow> (nat \<Rightarrow> ('p, 'i) step_input list) \<Rightarrow> ('p, 'i, 'g) outcome option" where
  "main c cl gpu val_loader epochs = train c gpu (parse_args cl) val_loader epochs"

subsection \<open>Observations on traces and on the restart stream\<close>

text \<open>The calls that change gradients, weights or the learning-rate schedule.\<close>

fun is_update :: "('p, 'i) event \<Rightarrow> bool" where
  "is_update ZeroGrad = True"
| "is_update (ClipGradNorm _) = True"
| "is_update OptimizerStep = True"
| "is_update SchedulerStep = True"
| "is_update _ = False"

fun is_backward :: "('p, 'i) event \<Rightarrow> bool" where
  "is_backward (Backward _) = True"
| "is_backward _ = False"

text \<open>A refinement round ends with exactly one gradient computation.\<close>

definition backward_count :: "('p, 'i) event list \<Rightarrow> nat" where
  "backward_count tr = length (filter is_backward tr)"

text \<open>The per-step reports of rank 0 (lines 239-252).\<close>

fun is_train_report :: "('p, 'i) event \<Rightarrow> bool" where
  "is_train_report (WandbLogTrain _ _) = True"
| "is_train_report (LoggerPush _) = True"
| "is_train_report _ = False"

definition loud :: "('p, 'i) event \<Rightarrow> bool" where
  "loud e = (is_update e \<or> is_backward e \<or> is_train_report e)"

text \<open>The variables that the validation pass leaves alone.\<close>

definition kept ::
  "('p, 'i, 'g) tstate \<Rightarrow> ('g \<times> int \<times> bool \<times> graph option)
     \<times> (real option \<times> real option \<times> real option \<times> real option)
     \<times> (metrics \<times> real option \<times> real option \<times> real option)" where
  "kept st = ((rng st, total_steps st, should_keep_training st, graph_var st),
              (geo_loss st, res_loss st, flo_loss st, loss st),
              (metrics_var st, rot_error st, tr_error st, f_error st))"

text \<open>The dictionary of line 241 from the three losses, the combined loss, the learning rate
  and the merged metrics.\<close>

definition step_log ::
  "real \<Rightarrow> real \<Rightarrow> real \<Rightarrow> real \<Rightarrow> real \<Rightarrow> metrics \<Rightarrow> train_log" where
  "step_log gl rl fl l lrv m =
     \<lparr>log_geo_loss = gl, log_res_loss = rl, log_flo_loss = fl, log_loss = l, log_lr = lrv,
      log_rot_error = m ''rot_error'', log_tr_error = m ''tr_error'',
      log_flo_error = m ''f_error''\<rparr>"

text \<open>The generator after \<open>n\<close> draws, and the \<open>n\<close>-th draw (from 0) of the stream that
  starts at generator state \<open>g\<close>.\<close>

fun rng_after :: "('p, 'i, 'r, 'g) collab \<Rightarrow> nat \<Rightarrow> 'g \<Rightarrow> 'g" where
  "rng_after c 0 g = g"
| "rng_after c (Suc n) g = rng_after c n (snd (rng_random c g))"

definition draw :: "('p, 'i, 'r, 'g) collab \<Rightarrow> 'g \<Rightarrow> nat \<Rightarrow> real" where
  "draw c g n = fst (rng_random c (rng_after c n g))"

text \<open>\<open>rounds_spec c p r g n\<close>: from comparator value \<open>r\<close> and generator state \<open>g\<close>, the loop
  condition \<open>r < p\<close> holds exactly \<open>n\<close> times.\<close>

fun rounds_spec :: "('p, 'i, 'r, 'g) collab \<Rightarrow> real \<Rightarrow> real \<Rightarrow> 'g \<Rightarrow> nat \<Rightarrow> bool" where
  "rounds_spec c p r g 0 = (\<not> r < p)"
| "rounds_spec c p r g (Suc n) =
     (r < p \<and> rounds_spec c p (fst (rng_random c g)) (snd (rng_random c g)) n)"

text \<open>On the calls the script makes (\<^verbatim>\<open>num_steps=args.iters\<close>, \<^verbatim>\<open>fixedp=2\<close>) the network returns
  at least one intermediate pose set and one intermediate inverse-depth map, so that
  \<^verbatim>\<open>poses_est[-1]\<close> and \<^verbatim>\<open>disps_est[-1]\<close> exist.\<close>

definition model_nonempty :: "('p, 'i, 'r, 'g) collab \<Rightarrow> args \<Rightarrow> bool" where
  "model_nonempty c a =
     (\<forall>tr G im d k gr. fst (droid_net c tr G im d k gr (iters a) 2) \<noteq> []
        \<and> fst (snd (droid_net c tr G im d k gr (iters a) 2)) \<noteq> [])"

text \<open>The calls of one refinement round that starts in state \<open>st\<close>.\<close>

definition round_events ::
  "('p, 'i, 'r, 'g) collab \<Rightarrow> args \<Rightarrow> ('p, 'i) item \<Rightarrow> 'p list list \<Rightarrow> graph
     \<Rightarrow> ('p, 'i, 'g) tstate \<Rightarrow> ('p, 'i) event list" where
  "round_events c a it Ps gr st =
     (let intrinsics0 = scale_intrinsics (intrinsics it);
          out = droid_net c (trace st) (Gs st) (images it) (disp0 st) intrinsics0 gr (iters a) 2;
          gl = fst (geodesic_loss c Ps (fst out) gr (Some False));
          rl = fst (residual_loss c (snd (snd out)));
          fl = fst (flow_loss c Ps (disps it) (fst out) (fst (snd out)) (intrinsics it) gr)
      in [ModelCall (Gs st) (images it) (disp0 st) intrinsics0 gr (iters a) 2,
          GeodesicLossCall gr (Some False), ResidualLossCall, FlowLossCall gr,
          Backward (w1 a * gl + w2 a * rl + w3 a * fl)])"

text \<open>The three losses, the combined loss and the merged metrics that one refinement round
  computes when it starts in state \<open>st\<close>.\<close>

definition round_values ::
  "('p, 'i, 'r, 'g) collab \<Rightarrow> args \<Rightarrow> ('p, 'i) item \<Rightarrow> 'p list list \<Rightarrow> graph
     \<Rightarrow> ('p, 'i, 'g) tstate \<Rightarrow> real \<times> real \<times> real \<times> real \<times> metrics" where
  "round_values c a it Ps gr st =
     (let intrinsics0 = scale_intrinsics (intrinsics it);
          out = droid_net c (trace st) (Gs st) (images it) (disp0 st) intrinsics0 gr (iters a) 2;
          geo = geodesic_loss c Ps (fst out) gr (Some False);
          res = residual_loss c (snd (snd out));
          flo = flow_loss c Ps (disps it) (fst out) (fst (snd out)) (intrinsics it) gr
      in (fst geo, fst res, fst flo, w1 a * fst geo + w2 a * fst res + w3 a * fst flo,
          Map.empty ++ snd geo ++ snd res ++ snd flo))"

text \<open>Exactly \<open>n\<close> rounds, one draw before each: the restart loop with its exit test
  replaced by a counter.\<close>

fun run_rounds ::
  "('p, 'i, 'r, 'g) collab \<Rightarrow> args \<Rightarrow> ('p, 'i) item \<Rightarrow> 'p list list \<Rightarrow> graph \<Rightarrow> nat
     \<Rightarrow> ('p, 'i, 'g) tstate \<Rightarrow> ('p, 'i, 'g) outcome" where
  "run_rounds c a it Ps gr 0 st = Inr st"
| "run_rounds c a it Ps gr (Suc n) st =
     (case refinement_round c a it Ps gr (st\<lparr>rng := snd (rng_random c (rng st))\<rparr>) of
        Inl e \<Rightarrow> Inl e
      | Inr st' \<Rightarrow> run_rounds c a it Ps gr n st')"

subsection \<open>Concrete collaborators and inputs for the examples\<close>

text \<open>
  Poses and images are numbers; the pose inverse is negation; the heuristic graph is the
  chain 0 - 1 - 2; the network hands its pose input back as its only intermediate estimate; the geodesic loss reports the sum of the
  ground-truth poses as rotation error; the restart generator is a counter whose first two
  draws are 0.1 and whose later draws are 0.9.
\<close>

definition demo_collab :: "(real, nat, nat, nat) collab" where
  "demo_collab =
     \<lparr>se3_inv = uminus, se3_identity = 0,
      build_frame_graph = (\<lambda>ps ds intr num. [(0, [1]), (1, [0, 2]), (2, [1])]),
      droid_net = (\<lambda>tr G im d k gr n f. ([G], [[[[[1]]]]], im)),
      geodesic_loss = (\<lambda>Ps pe gr ds.
         (sum_list (map sum_list Ps),
          [''rot_error'' \<mapsto> sum_list (map sum_list Ps), ''tr_error'' \<mapsto> 0])),
      residual_loss = (\<lambda>res. (real res, [''residual'' \<mapsto> real res])),
      flow_loss = (\<lambda>Ps ds pe de intr gr. (0, [''f_error'' \<mapsto> 0])),
      rng_random = (\<lambda>g. (if g < 2 then 1 / 10 else 9 / 10, Suc g)),
      default_rng = (\<lambda>seed. 0),
      optimizer_lr = (\<lambda>tr. 0)\<rparr>"

text \<open>The same collaborators with a network that returns one estimate per iteration.\<close>

definition iter_collab :: "(real, nat, nat, nat) collab" where
  "iter_collab =
     demo_collab\<lparr>droid_net :=
       (\<lambda>tr G im d k gr n f. (replicate (nat n) G, replicate (nat n) [[[[1]]]], im))\<rparr>"

text \<open>A batch of one sample with three frames of 4 \<open>\<times>\<close> 12 pixels, whose rotation error
  (under \<open>demo_collab\<close>) is \<open>x\<close>.\<close>

definition demo_frame :: "real list list" where
  "demo_frame =
     [[5, 5, 5, 5, 5, 5, 5, 5, 5, 5, 5, 5], [5, 5, 5, 5, 5, 5, 5, 5, 5, 5, 5, 5],
      [5, 5, 5, 5, 5, 5, 5, 5, 5, 5, 5, 5], [5, 5, 5, 5, 5, 5, 5, 5, 5, 5, 5, 5]]"

definition demo_item :: "real \<Rightarrow> (real, nat) item" where
  "demo_item x =
     \<lparr>images = 0, poses = [[- x, 2, - 2]], disps = [[demo_frame, demo_frame, demo_frame]],
      intrinsics = [[[8, 8, 4, 4], [8, 8, 4, 4], [8, 8, 4, 4]]]\<rparr>"

definition default_cli :: cli where
  "default_cli =
     \<lparr>cli_gpus = None, cli_batch = None, cli_iters = None, cli_steps = None, cli_lr = None,
      cli_clip = None, cli_n_frames = None, cli_w1 = None, cli_w2 = None, cli_w3 = None,
      cli_fmin = None, cli_fmax = None, cli_edges = None, cli_restart_prob = None\<rparr>"

text \<open>\<^verbatim>\<open>--gpus 2 --n_frames 3 --steps 1\<close>\<close>

definition demo_args :: args where
  "demo_args =
     parse_args (default_cli\<lparr>cli_gpus := Some 2, cli_n_frames := Some 3, cli_steps := Some 1\<rparr>)"

subsection \<open>Rounds per outer step\<close>

text \<open>The number of gradient computations after each \<^verbatim>\<open>optimizer.zero_grad()\<close> of a trace:
  one entry per outer step, in order.\<close>

fun rc_step :: "('p, 'i) event \<Rightarrow> nat \<times> nat list \<Rightarrow> nat \<times> nat list" where
  "rc_step ZeroGrad (k, ks) = (0, k # ks)"
| "rc_step (Backward _) (k, ks) = (Suc k, ks)"
| "rc_step _ (k, ks) = (k, ks)"

definition round_counts :: "('p, 'i) event list \<Rightarrow> nat list" where
  "round_counts tr = snd (foldr rc_step tr (0, []))"

text \<open>\<open>steps_spec c p g ns g'\<close>: starting from generator state \<open>g\<close>, consecutive outer steps
  execute \<open>ns\<close> rounds and leave the generator in state \<open>g'\<close>.\<close>

fun steps_spec :: "('p, 'i, 'r, 'g) collab \<Rightarrow> real \<Rightarrow> 'g \<Rightarrow> nat list \<Rightarrow> 'g \<Rightarrow> bool" where
  "steps_spec c p g [] g' = (g' = g)"
| "steps_spec c p g (n # ns) g' = (rounds_spec c p 0 g n \<and> steps_spec c p (rng_after c n g) ns g')"

text \<open>What the loop of line 112 maintains: the flag is cleared exactly when the step counter
  has reached \<^verbatim>\<open>args.steps\<close> (after at least one step).\<close>

definition loop_inv :: "args \<Rightarrow> ('p, 'i, 'g) tstate \<Rightarrow> bool" where
  "loop_inv a st =
     (0 \<le> total_steps st \<and>
      (if should_keep_training st then total_steps st = 0 \<or> total_steps st < steps a
       else total_steps st = max 1 (steps a)))"

subsection \<open>The samplers (lines 83-90)\<close>

text \<open>
  \<^verbatim>\<open>torch.utils.data.distributed.DistributedSampler\<close> is a class of the PyTorch library;
  the script constructs two and never touches them again. The model follows the library's
  constructor and its \<^verbatim>\<open>__iter__\<close> (with \<^verbatim>\<open>drop_last=False\<close> and \<^verbatim>\<open>seed=0\<close>, the defaults
  the script leaves in place): the shuffled order is \<^verbatim>\<open>torch.randperm\<close> from a generator
  seeded with \<^verbatim>\<open>seed + epoch\<close>, the list is padded to a multiple of the number of replicas
  and rank \<open>r\<close> takes every \<^verbatim>\<open>num_replicas\<close>-th index from position \<open>r\<close>. \<open>randperm\<close>, a
  parameter, gives the permutation for a seed and a length. The field \<open>epoch\<close> is 0 until
  \<^verbatim>\<open>set_epoch\<close> is called.
\<close>

record sampler =
  dataset_len :: nat
  num_replicas :: nat
  rank :: nat
  shuffle :: bool
  seed :: nat
  epoch :: nat

definition DistributedSampler :: "nat \<Rightarrow> bool \<Rightarrow> nat \<Rightarrow> nat \<Rightarrow> sampler" where
  "DistributedSampler n sh replicas r =
     \<lparr>dataset_len = n, num_replicas = replicas, rank = r, shuffle = sh, seed = 0, epoch = 0\<rparr>"

definition set_epoch :: "nat \<Rightarrow> sampler \<Rightarrow> sampler" where
  "set_epoch e s = s\<lparr>epoch := e\<rparr>"

text \<open>\<^verbatim>\<open>math.ceil(len(dataset) / num_replicas)\<close> and \<^verbatim>\<open>num_samples * num_replicas\<close>\<close>

definition num_samples :: "sampler \<Rightarrow> nat" where
  "num_samples s = (dataset_len s + num_replicas s - 1) div num_replicas s"

definition total_size :: "sampler \<Rightarrow> nat" where
  "total_size s = num_samples s * num_replicas s"

text \<open>\<^verbatim>\<open>xs[start:stop:step]\<close> for \<open>start, stop \<ge> 0\<close> and \<open>step > 0\<close>.\<close>

definition py_slice :: "nat \<Rightarrow> nat \<Rightarrow> nat \<Rightarrow> 'a list \<Rightarrow> 'a list" where
  "py_slice start stop step xs =
     map (nth xs) [k \<leftarrow> [0..<min stop (length xs)]. start \<le> k \<and> (k - start) mod step = 0]"

definition sampler_iter :: "(nat \<Rightarrow> nat \<Rightarrow> nat list) \<Rightarrow> sampler \<Rightarrow> nat list" where
  "sampler_iter randperm s =
     (let indices = (if shuffle s then randperm (seed s + epoch s) (dataset_len s)
                     else [0..<dataset_len s]);
          padding_size = total_size s - length indices;
          indices =
            (if padding_size \<le> length indices then indices @ take padding_size indices
             else indices @ take padding_size
                    (concat (replicate ((padding_size + length indices - 1) div length indices)
                       indices)))
      in py_slice (rank s) (total_size s) (num_replicas s) indices)"

text \<open>Lines 84-87; the rank and the world size are Python ints.\<close>

definition train_sampler :: "args \<Rightarrow> int \<Rightarrow> nat \<Rightarrow> sampler" where
  "train_sampler a gpu db_len = DistributedSampler db_len True (nat (world_size a)) (nat gpu)"

definition val_sampler :: "args \<Rightarrow> int \<Rightarrow> nat \<Rightarrow> sampler" where
  "val_sampler a gpu val_db_len = DistributedSampler val_db_len False (nat (world_size a)) (nat gpu)"

text \<open>
  The order in which the \<open>n\<close>-th pass of \<^verbatim>\<open>for i_batch, item in enumerate(train_loader)\<close>
  (line 113) visits the samples of this rank: the loader (line 89) asks its sampler for
  a new iterator on every pass, and \<^verbatim>\<open>train\<close> contains no call of \<^verbatim>\<open>set_epoch\<close>, so on every
  pass the sampler is as line 84 built it. Likewise for every pass over \<^verbatim>\<open>val_loader\<close>
  (line 178).
\<close>

definition train_pass_order :: "(nat \<Rightarrow> nat \<Rightarrow> nat list) \<Rightarrow> args \<Rightarrow> int \<Rightarrow> nat \<Rightarrow> nat \<Rightarrow> nat list" where
  "train_pass_order randperm a gpu db_len n = sampler_iter randperm (train_sampler a gpu db_len)"

definition val_pass_order :: "(nat \<Rightarrow> nat \<Rightarrow> nat list) \<Rightarrow> args \<Rightarrow> int \<Rightarrow> nat \<Rightarrow> nat \<Rightarrow> nat list" where
  "val_pass_order randperm a gpu val_db_len n = sampler_iter randperm (val_sampler a gpu val_db_len)"

subsection \<open>Further concrete inputs\<close>

text \<open>The state and the error of an outcome.\<close>

definition outcome_state :: "('p, 'i, 'g) outcome \<Rightarrow> ('p, 'i, 'g) tstate" where
  "outcome_state res = (case res of Inl (e, st) \<Rightarrow> st | Inr st \<Rightarrow> st)"

definition outcome_error :: "('p, 'i, 'g) outcome \<Rightarrow> py_error option" where
  "outcome_error res = (case res of Inl (e, st) \<Rightarrow> Some e | Inr st \<Rightarrow> None)"

text \<open>The calls that clear, compute, clip or apply gradients or advance the schedule.\<close>

definition grad_event :: "('p, 'i) event \<Rightarrow> bool" where
  "grad_event e = (is_update e \<or> is_backward e)"

text \<open>An outcome reached from state \<open>st\<close> without any such call and without a draw from the
  restart generator.\<close>

definition quiet_from :: "('p, 'i, 'g) tstate \<Rightarrow> ('p, 'i, 'g) outcome \<Rightarrow> bool" where
  "quiet_from st res =
     (\<exists>es. trace (outcome_state res) = trace st @ es \<and> filter grad_event es = []
        \<and> rng (outcome_state res) = rng st)"

text \<open>The report of a validation pass (line 224).\<close>

fun is_val_report :: "('p, 'i) event \<Rightarrow> bool" where
  "is_val_report (WandbLogVal _ _ _ _) = True"
| "is_val_report _ = False"

text \<open>Every pass over the training loader yields one batch.\<close>

definition demo_epochs :: "nat \<Rightarrow> (real, nat) step_input list" where
  "demo_epochs n = [\<lparr>coin_of = 7 / 10, peers_of = [], item_of = demo_item 1\<rparr>]"

text \<open>Outer step number 5000, the first that validates, with a restart generator whose
  next draw is 0.9; and the same state inside that step, where \<^verbatim>\<open>graph\<close> is bound.\<close>

definition demo_state_5000 :: "(real, nat, nat) tstate" where
  "demo_state_5000 = (initial_state demo_collab 0)\<lparr>total_steps := 5000, rng := 2\<rparr>"

definition demo_val_state :: "(real, nat, nat) tstate" where
  "demo_val_state = demo_state_5000\<lparr>graph_var := Some (window_graph 3)\<rparr>"

text \<open>A permutation for every seed: the rotation by \<open>seed + 1\<close>.\<close>

definition demo_randperm :: "nat \<Rightarrow> nat \<Rightarrow> nat list" where
  "demo_randperm sd n = rotate (Suc sd) [0..<n]"

section \<open>Properties\<close>

subsection \<open>The window graph\<close>

lemma fold_update_fresh:
  "distinct ks \<Longrightarrow> set ks \<inter> fst ` set g = {} \<Longrightarrow>
   fold (\<lambda>i gr. AList.update i (f i) gr) ks g = g @ map (\<lambda>i. (i, f i)) ks"
proof (induction ks arbitrary: g)
  case Nil
  then show ?case by simp
next
  case (Cons k ks)
  have upd: "AList.update k (f k) g = g @ [(k, f k)]"
    using Cons.prems(2) by (induction g) auto
  have "set ks \<inter> fst ` set (g @ [(k, f k)]) = {}"
    using Cons.prems by auto
  with Cons.IH [of "g @ [(k, f k)]"] Cons.prems(1) upd show ?case by simp
qed

lemma window_graph_alist:
  "window_graph N = map (\<lambda>i. (i, [j \<leftarrow> py_range N. i \<noteq> j \<and> \<bar>i - j\<bar> \<le> 2])) (py_range N)"
  unfolding window_graph_def
  using fold_update_fresh [of "py_range N" "[]"] by (simp add: py_range_def)

lemma val_window_graph_eq: "val_window_graph N = window_graph N"
  by (simp add: val_window_graph_def window_graph_def)

lemma window_graph_lookup:
  "0 \<le> i \<Longrightarrow> i < N \<Longrightarrow>
   map_of (window_graph N) i = Some [j \<leftarrow> py_range N. i \<noteq> j \<and> \<bar>i - j\<bar> \<le> 2]"
  unfolding window_graph_alist
  by (simp add: map_of_map_restrict py_range_def)

lemma choose_graph_window:
  "\<not> coin < 0.5 \<Longrightarrow> choose_graph c a coin it = window_graph (n_frames a)"
  by (simp add: choose_graph_def)

text \<open>
  Claim C8. For every frame count \<open>N\<close> and every frame index \<open>i\<close> with \<open>0 \<le> i < N\<close>, both
  the training window graph and the validation graph store under key \<open>i\<close> a neighbour
  list whose elements are exactly the \<open>j\<close> with \<open>j \<noteq> i\<close>, \<open>|i - j| \<le> 2\<close> and \<open>0 \<le> j < N\<close>;
  the list is in increasing order without repetition, and the keys of the graph are exactly
  the frame indices \<open>0, ..., N - 1\<close> in order. The training window graph is the graph of
  every training step whose coin is not below 0.5.
\<close>

theorem window_graph_neighbours:
  assumes "0 \<le> i" and "i < N"
  shows "\<exists>ns. map_of (window_graph N) i = Some ns \<and> map_of (val_window_graph N) i = Some ns
           \<and> set ns = {j. j \<noteq> i \<and> \<bar>i - j\<bar> \<le> 2 \<and> 0 \<le> j \<and> j < N}
           \<and> sorted ns \<and> distinct ns
           \<and> map fst (window_graph N) = py_range N
           \<and> map fst (val_window_graph N) = py_range N
           \<and> (\<not> coin < 0.5 \<longrightarrow> choose_graph c a coin it = window_graph (n_frames a))"
proof -
  let ?ns = "[j \<leftarrow> py_range N. i \<noteq> j \<and> \<bar>i - j\<bar> \<le> 2]"
  have 1: "map_of (window_graph N) i = Some ?ns"
    using assms by (rule window_graph_lookup)
  have 2: "set ?ns = {j. j \<noteq> i \<and> \<bar>i - j\<bar> \<le> 2 \<and> 0 \<le> j \<and> j < N}"
    by (auto simp: py_range_def)
  have 3: "sorted ?ns" "distinct ?ns"
    by (simp_all add: py_range_def sorted_wrt_filter)
  have 4: "map fst (window_graph N) = py_range N"
    by (simp add: window_graph_alist comp_def)
  show ?thesis
    using 1 2 3 4 choose_graph_window [of coin c a it] by (simp add: val_window_graph_eq)
qed

theorem window_graph_neighbours_witness:
  "map_of (window_graph 7) 0 = Some [1, 2] \<and> map_of (val_window_graph 7) 0 = Some [1, 2]
   \<and> map_of (window_graph 7) 3 = Some [1, 2, 4, 5] \<and> map_of (val_window_graph 7) 3 = Some [1, 2, 4, 5]
   \<and> set [1, 2, 4, 5] = {j. j \<noteq> 3 \<and> \<bar>3 - j\<bar> \<le> 2 \<and> 0 \<le> j \<and> j < (7::int)}
   \<and> choose_graph demo_collab demo_args (7 / 10) (demo_item 1) = window_graph 3"
proof -
  have r: "py_range 7 = [0, 1, 2, 3, 4, 5, 6]"
    by (simp add: py_range_def upto_rec1)
  have g0: "map_of (window_graph 7) 0 = Some [1, 2]"
    by (simp add: window_graph_alist r)
  have g3: "map_of (window_graph 7) 3 = Some [1, 2, 4, 5]"
    by (simp add: window_graph_alist r)
  have n: "n_frames demo_args = 3"
    by (simp add: demo_args_def parse_args_def with_default_def default_cli_def)
  note w = window_graph_neighbours [of 3 7 "7 / 10" demo_collab demo_args "demo_item 1"]
  from w g3
  have "set [1, 2, 4, 5] = {j. j \<noteq> 3 \<and> \<bar>3 - j\<bar> \<le> 2 \<and> 0 \<le> j \<and> j < (7::int)}"
    by auto
  moreover from w n have "choose_graph demo_collab demo_args (7 / 10) (demo_item 1) = window_graph 3"
    by auto
  ultimately show ?thesis using g0 g3
    by (simp add: val_window_graph_eq)
qed

subsection \<open>The restart loop\<close>

lemma refinement_round_Inr:
  assumes "refinement_round c a it Ps gr st = Inr st'"
  shows "trace st' = trace st @ round_events c a it Ps gr st"
    and "rng st' = rng st" and "total_steps st' = total_steps st"
    and "should_keep_training st' = should_keep_training st"
    and "graph_var st' = graph_var st"
  using assms
  by (auto simp: refinement_round_def round_events_def emit_def Let_def py_last_def
           split: prod.splits sum.splits if_splits)

lemma refinement_round_total:
  assumes "model_nonempty c a"
  shows "\<exists>st'. refinement_round c a it Ps gr st = Inr st'"
proof -
  obtain pe de res where out:
    "droid_net c (trace st) (Gs st) (images it) (disp0 st) (scale_intrinsics (intrinsics it)) gr (iters a) 2 = (pe, de, res)"
    by (metis prod_cases3)
  from assms have "pe \<noteq> []" "de \<noteq> []"
    unfolding model_nonempty_def by (metis out fst_conv snd_conv)+
  then show ?thesis
    by (simp add: refinement_round_def out Let_def py_last_def split: prod.splits)
qed

lemma rounds_spec_unique:
  "rounds_spec c p r g n \<Longrightarrow> rounds_spec c p r g m \<Longrightarrow> n = m"
proof (induction n arbitrary: r g m)
  case 0
  then show ?case by (cases m) auto
next
  case (Suc n)
  then show ?case by (cases m) auto
qed

lemma rounds_spec_draws:
  "rounds_spec c p r g (Suc n) \<longleftrightarrow>
     r < p \<and> (\<forall>i<n. draw c g i < p) \<and> \<not> draw c g n < p"
proof (induction n arbitrary: r g)
  case 0
  then show ?case by (simp add: draw_def)
next
  case (Suc n)
  have "(\<forall>i<Suc n. draw c g i < p) \<longleftrightarrow>
        draw c g 0 < p \<and> (\<forall>i<n. draw c (snd (rng_random c g)) i < p)"
    by (auto simp: draw_def less_Suc_eq_0_disj)
  moreover have "draw c g (Suc n) = draw c (snd (rng_random c g)) n"
    by (simp add: draw_def)
  ultimately show ?case
    using Suc.IH [of "fst (rng_random c g)" "snd (rng_random c g)"]
    by (auto simp: draw_def)
qed


lemma restart_loop_rounds:
  assumes "restart_loop c a it Ps gr r st = Some res"
  shows "\<exists>n. (case res of Inr _ \<Rightarrow> rounds_spec c (restart_prob a) r (rng st) n | Inl _ \<Rightarrow> True)
      \<and> run_rounds c a it Ps gr n st = res"
  using assms
proof (induction c a it Ps gr r st res rule: restart_loop.raw_induct [rotated 1, consumes 1, case_names 1])
  case (1 loop c a it Ps gr r st res)
  show ?case
  proof (cases "r < restart_prob a")
    case False
    with 1(2) have "res = Inr st" by simp
    with False show ?thesis by (intro exI [of _ 0]) simp
  next
    case True
    let ?st1 = "st\<lparr>rng := snd (rng_random c (rng st))\<rparr>"
    show ?thesis
    proof (cases "refinement_round c a it Ps gr ?st1")
      case (Inl e)
      with True 1(2) have "res = Inl e" by (simp add: case_prod_beta)
      with Inl show ?thesis by (intro exI [of _ "Suc 0"]) simp
    next
      case (Inr st2)
      with True 1(2) have "loop c a it Ps gr (fst (rng_random c (rng st))) st2 = Some res"
        by (simp add: case_prod_beta)
      from 1(1) [OF this] obtain n where
        n: "case res of Inr _ \<Rightarrow> rounds_spec c (restart_prob a) (fst (rng_random c (rng st))) (rng st2) n | Inl _ \<Rightarrow> True"
          "run_rounds c a it Ps gr n st2 = res" by blast
      have "rng st2 = snd (rng_random c (rng st))"
        using refinement_round_Inr(2) [OF Inr] by simp
      with n True Inr show ?thesis
        by (intro exI [of _ "Suc n"]) (simp split: sum.splits)
    qed
  qed
qed

lemma run_rounds_Suc_Inr:
  assumes "run_rounds c a it Ps gr (Suc n) st = Inr st'"
  obtains st2 where
    "refinement_round c a it Ps gr (st\<lparr>rng := snd (rng_random c (rng st))\<rparr>) = Inr st2"
    "run_rounds c a it Ps gr n st2 = Inr st'"
  using assms
  by (cases "refinement_round c a it Ps gr (st\<lparr>rng := snd (rng_random c (rng st))\<rparr>)") auto

lemma rounds_restart_loop:
  "rounds_spec c (restart_prob a) r (rng st) n \<Longrightarrow> run_rounds c a it Ps gr n st = Inr st' \<Longrightarrow>
   restart_loop c a it Ps gr r st = Some (Inr st')"
proof (induction n arbitrary: r st)
  case 0
  then show ?case by (subst restart_loop.simps) simp
next
  case (Suc n)
  let ?st1 = "st\<lparr>rng := snd (rng_random c (rng st))\<rparr>"
  from Suc.prems(2) obtain st2 where
    r1: "refinement_round c a it Ps gr ?st1 = Inr st2" and
    r2: "run_rounds c a it Ps gr n st2 = Inr st'"
    by (rule run_rounds_Suc_Inr)
  have g: "rng st2 = snd (rng_random c (rng st))"
    using refinement_round_Inr(2) [OF r1] by simp
  from Suc.prems(1) have lt: "r < restart_prob a"
    and sp: "rounds_spec c (restart_prob a) (fst (rng_random c (rng st))) (rng st2) n"
    by (simp_all add: g)
  from Suc.IH [OF sp r2] lt r1 show ?case
    by (subst restart_loop.simps) (simp add: case_prod_beta)
qed

lemma run_rounds_total:
  assumes "model_nonempty c a"
  shows "\<exists>st'. run_rounds c a it Ps gr n st = Inr st'"
proof (induction n arbitrary: st)
  case 0
  show ?case by simp
next
  case (Suc n)
  obtain st2 where "refinement_round c a it Ps gr (st\<lparr>rng := snd (rng_random c (rng st))\<rparr>) = Inr st2"
    using refinement_round_total [OF assms] by blast
  with Suc [of st2] show ?case by simp
qed

lemma round_events_shape:
  "backward_count (round_events c a it Ps gr st) = 1"
  "filter is_update (round_events c a it Ps gr st) = []"
  by (simp_all add: round_events_def backward_count_def Let_def)

lemma backward_count_append [simp]:
  "backward_count (xs @ ys) = backward_count xs + backward_count ys"
  by (simp add: backward_count_def)

lemma run_rounds_Inr:
  assumes "run_rounds c a it Ps gr n st = Inr st'"
  shows "rng st' = rng_after c n (rng st) \<and> total_steps st' = total_steps st
    \<and> should_keep_training st' = should_keep_training st \<and> graph_var st' = graph_var st
    \<and> (\<exists>es. trace st' = trace st @ es \<and> backward_count es = n \<and> filter is_update es = [])"
  using assms
proof (induction n arbitrary: st)
  case 0
  then show ?case by (simp add: backward_count_def)
next
  case (Suc n)
  let ?st1 = "st\<lparr>rng := snd (rng_random c (rng st))\<rparr>"
  from Suc.prems obtain st2 where r1: "refinement_round c a it Ps gr ?st1 = Inr st2"
    and r2: "run_rounds c a it Ps gr n st2 = Inr st'" by (rule run_rounds_Suc_Inr)
  note ih = Suc.IH [OF r2]
  from ih obtain es where es: "trace st' = trace st2 @ es"
    "backward_count es = n" "filter is_update es = []" by blast
  have tr: "trace st2 = trace st @ round_events c a it Ps gr ?st1"
    using refinement_round_Inr(1) [OF r1] by simp
  have "trace st' = trace st @ (round_events c a it Ps gr ?st1 @ es)
     \<and> backward_count (round_events c a it Ps gr ?st1 @ es) = Suc n
     \<and> filter is_update (round_events c a it Ps gr ?st1 @ es) = []"
    using es tr round_events_shape [of c a it Ps gr ?st1] by simp
  then have "\<exists>es. trace st' = trace st @ es \<and> backward_count es = Suc n \<and> filter is_update es = []"
    by blast
  with ih refinement_round_Inr(2-5) [OF r1] show ?case by simp
qed

subsection \<open>The validation pass and the end of a step\<close>

lemma init_estimates_Inr:
  assumes "init_estimates c Ps ds st = Inr st'"
  shows "\<exists>G. st' = st\<lparr>Gs := G, disp0 := ones_like (downsample ds)\<rparr>"
  using assms
  by (auto simp: init_estimates_def Let_def split: sum.splits)

lemma val_body_Inr:
  assumes "val_body c a val_item st = Inr st'"
  shows "kept st' = kept st \<and> (\<exists>es. trace st' = trace st @ es \<and> filter loud es = [])"
proof -
  from assms obtain st1 where i: "init_estimates c (se3_inv_all c (poses val_item)) (disps val_item) st = Inr st1"
    by (auto simp: val_body_def Let_def split: sum.splits)
  from init_estimates_Inr [OF i] obtain G where
    st1: "st1 = st\<lparr>Gs := G, disp0 := ones_like (downsample (disps val_item))\<rparr>" by blast
  from assms i show ?thesis
    unfolding val_body_def st1
    by (auto simp: Let_def emit_def kept_def loud_def split: prod.splits option.splits)
qed

lemma val_loop_Inr:
  assumes "val_loop c a i val_loader st = Inr st'"
  shows "kept st' = kept st \<and> (\<exists>es. trace st' = trace st @ es \<and> filter loud es = [])"
  using assms
proof (induction val_loader arbitrary: i st)
  case Nil
  then show ?case by simp
next
  case (Cons val_item rest)
  let ?st0 = "st\<lparr>v_batch := Some i\<rparr>"
  have k0: "kept ?st0 = kept st" "trace ?st0 = trace st" by (simp_all add: kept_def)
  show ?case
  proof (cases "i = 500")
    case True
    with Cons.prems have "st' = ?st0" by simp
    with k0 show ?thesis by simp
  next
    case False
    with Cons.prems obtain st1 where b: "val_body c a val_item ?st0 = Inr st1"
      and l: "val_loop c a (i + 1) rest st1 = Inr st'"
      by (auto simp: Let_def split: sum.splits)
    from val_body_Inr [OF b] Cons.IH [OF l] k0 show ?thesis by auto
  qed
qed

lemma val_local_Inr:
  assumes "val_local c a val_loader st = Inr st'"
  shows "kept st' = kept st \<and> (\<exists>es. trace st' = trace st @ es \<and> filter loud es = [])"
proof -
  let ?st0 = "(emit ModelEval st)\<lparr>val_rot_error := 0, val_tr_error := 0, val_f_error := 0\<rparr>"
  from assms have "val_loop c a 0 val_loader ?st0 = Inr st'"
    by (simp add: val_local_def Let_def)
  from val_loop_Inr [OF this] obtain es where "kept st' = kept ?st0" "trace st' = trace ?st0 @ es"
    "filter loud es = []" by blast
  then have "kept st' = kept st \<and> trace st' = trace st @ (ModelEval # es) \<and> filter loud (ModelEval # es) = []"
    by (simp add: kept_def emit_def loud_def)
  then show ?thesis by blast
qed

lemma val_reduce_Inr:
  assumes "val_reduce gpu a peers st = Inr st'"
  shows "kept st' = kept st \<and> (\<exists>es. trace st' = trace st @ es \<and> filter loud es = [])"
  using assms
  by (auto simp: val_reduce_def Let_def emit_def kept_def loud_def split: option.splits if_splits)

lemma validation_Inr:
  assumes "validation c gpu a val_loader peers st = Inr st'"
  shows "kept st' = kept st \<and> (\<exists>es. trace st' = trace st @ es \<and> filter loud es = [])"
proof -
  from assms obtain st1 where l: "val_local c a val_loader st = Inr st1"
    and r: "val_reduce gpu a peers st1 = Inr st'"
    by (auto simp: validation_def split: sum.splits)
  from val_local_Inr [OF l] val_reduce_Inr [OF r] show ?thesis by auto
qed


lemma filter_loud_empty:
  assumes "filter loud es = []"
  shows "filter is_update es = []" "filter is_backward es = []" "filter is_train_report es = []"
  using assms by (auto simp: filter_empty_conv loud_def)

lemma log_step_Inr:
  assumes "log_step c st = Inr st'"
  shows "\<exists>gl rl fl l lrv. geo_loss st = Some gl \<and> res_loss st = Some rl \<and> flo_loss st = Some fl
      \<and> loss st = Some l
      \<and> trace st' = trace st @
          [WandbLogTrain \<lparr>log_geo_loss = gl, log_res_loss = rl, log_flo_loss = fl, log_loss = l,
              log_lr = lrv, log_rot_error = rot_error st, log_tr_error = tr_error st,
              log_flo_error = f_error st\<rparr> (total_steps st),
           LoggerPush (metrics_var st)]
      \<and> rng st' = rng st \<and> total_steps st' = total_steps st
      \<and> should_keep_training st' = should_keep_training st"
  using assms
  by (auto simp: log_step_def Let_def emit_def split: option.splits)

lemma finish_step_Inr:
  assumes "finish_step c gpu a val_loader peers st = Inr st'"
  shows "\<exists>gm rm fm tail. geo_metrics st = Some gm \<and> res_metrics st = Some rm
      \<and> flo_metrics st = Some fm
      \<and> trace st' = trace st @ [ClipGradNorm (clip a), OptimizerStep, SchedulerStep] @ tail
      \<and> filter is_update tail = [] \<and> filter is_backward tail = []
      \<and> (if gpu = 0
          then \<exists>gl rl fl l lrv. geo_loss st = Some gl \<and> res_loss st = Some rl
                 \<and> flo_loss st = Some fl \<and> loss st = Some l
                 \<and> filter is_train_report tail =
                     [WandbLogTrain (step_log gl rl fl l lrv (Map.empty ++ gm ++ rm ++ fm))
                        (total_steps st + 1),
                      LoggerPush (Map.empty ++ gm ++ rm ++ fm)]
          else filter is_train_report tail = [])
      \<and> rng st' = rng st \<and> total_steps st' = total_steps st + 1
      \<and> should_keep_training st' = (should_keep_training st \<and> \<not> steps a \<le> total_steps st + 1)"
proof -
  from assms obtain gm rm fm where m: "geo_metrics st = Some gm" "res_metrics st = Some rm"
    "flo_metrics st = Some fm"
    by (auto simp: finish_step_def Let_def emit_def split: option.splits)
  let ?m = "Map.empty ++ gm ++ rm ++ fm"
  define st1 where "st1 = st\<lparr>trace := trace st @ [ClipGradNorm (clip a), OptimizerStep, SchedulerStep],
     metrics_var := ?m, rot_error := ?m ''rot_error'', tr_error := ?m ''tr_error'',
     f_error := ?m ''f_error''\<rparr>"
  let ?v = "if total_steps st1 \<noteq> 0 \<and> total_steps st1 mod 5000 = 0
            then validation c gpu a val_loader peers st1 else Inr st1"
  have unf: "finish_step c gpu a val_loader peers st =
     (case ?v of Inl e \<Rightarrow> Inl e
      | Inr st \<Rightarrow>
        let st = st\<lparr>total_steps := total_steps st + 1\<rparr> in
        case (if gpu = 0 then log_step c st else Inr st) of
          Inl e \<Rightarrow> Inl e
        | Inr st \<Rightarrow>
        let st = (if total_steps st mod 10000 = 0 \<and> gpu = 0
                  then emit (TorchSave (total_steps st)) st else st)
        in Inr (if total_steps st \<ge> steps a then st\<lparr>should_keep_training := False\<rparr> else st))"
    by (simp add: finish_step_def Let_def emit_def m st1_def)
  from assms obtain st2 where v: "?v = Inr st2"
    unfolding unf by (auto split: sum.splits)
  have k2: "kept st2 = kept st1 \<and> (\<exists>es. trace st2 = trace st1 @ es \<and> filter loud es = [])"
  proof (cases "total_steps st1 \<noteq> 0 \<and> total_steps st1 mod 5000 = 0")
    case True
    with v have "validation c gpu a val_loader peers st1 = Inr st2" by simp
    then show ?thesis by (rule validation_Inr)
  next
    case False
    with v have "st2 = st1" by simp
    then show ?thesis by simp
  qed
  then obtain es where es: "trace st2 = trace st1 @ es" "filter loud es = []" and k: "kept st2 = kept st1"
    by blast
  let ?st3 = "st2\<lparr>total_steps := total_steps st2 + 1\<rparr>"
  from assms v obtain st4 where lg: "(if gpu = 0 then log_step c ?st3 else Inr ?st3) = Inr st4"
    and fin: "st' = (let st = (if total_steps st4 mod 10000 = 0 \<and> gpu = 0
                  then emit (TorchSave (total_steps st4)) st4 else st4)
        in (if total_steps st \<ge> steps a then st\<lparr>should_keep_training := False\<rparr> else st))"
    unfolding unf by (auto simp: Let_def split: sum.splits)
  have k1: "rng st2 = rng st" "total_steps st2 = total_steps st"
    "should_keep_training st2 = should_keep_training st"
    "geo_loss st2 = geo_loss st" "res_loss st2 = res_loss st" "flo_loss st2 = flo_loss st"
    "loss st2 = loss st" "metrics_var st2 = ?m" "rot_error st2 = ?m ''rot_error''"
    "tr_error st2 = ?m ''tr_error''" "f_error st2 = ?m ''f_error''"
    using k by (simp_all add: kept_def st1_def)
  show ?thesis
  proof (cases "gpu = 0")
    case True
    with lg have "log_step c ?st3 = Inr st4" by simp
    from log_step_Inr [OF this] obtain gl rl fl l lrv where
      l: "geo_loss st = Some gl" "res_loss st = Some rl" "flo_loss st = Some fl" "loss st = Some l"
      and tr4: "trace st4 = trace st2 @
          [WandbLogTrain (step_log gl rl fl l lrv ?m) (total_steps st + 1), LoggerPush ?m]"
      and k4: "rng st4 = rng st" "total_steps st4 = total_steps st + 1"
        "should_keep_training st4 = should_keep_training st"
      by (auto simp: k1 step_log_def)
    let ?save = "if (total_steps st + 1) mod 10000 = 0 then [TorchSave (total_steps st + 1)] else []"
    let ?tail = "es @ [WandbLogTrain (step_log gl rl fl l lrv ?m) (total_steps st + 1), LoggerPush ?m] @ ?save"
    have "trace st' = trace st @ [ClipGradNorm (clip a), OptimizerStep, SchedulerStep] @ ?tail"
      using fin tr4 k4 es True by (simp add: Let_def emit_def st1_def)
    moreover have "filter is_update ?tail = []" "filter is_backward ?tail = []"
      "filter is_train_report ?tail =
         [WandbLogTrain (step_log gl rl fl l lrv ?m) (total_steps st + 1), LoggerPush ?m]"
      using filter_loud_empty [OF es(2)] by simp_all
    moreover have "rng st' = rng st" "total_steps st' = total_steps st + 1"
      "should_keep_training st' = (should_keep_training st \<and> \<not> steps a \<le> total_steps st + 1)"
      using fin k4 by (simp_all add: Let_def emit_def)
    ultimately show ?thesis using m l True by (intro exI [of _ gm] exI [of _ rm] exI [of _ fm] exI [of _ ?tail]) auto
  next
    case False
    with lg have st4: "st4 = ?st3" by simp
    have "trace st' = trace st @ [ClipGradNorm (clip a), OptimizerStep, SchedulerStep] @ es"
      using fin st4 es False by (simp add: Let_def emit_def st1_def)
    moreover have "filter is_update es = []" "filter is_backward es = []"
      "filter is_train_report es = []"
      using filter_loud_empty [OF es(2)] by simp_all
    moreover have "rng st' = rng st" "total_steps st' = total_steps st + 1"
      "should_keep_training st' = (should_keep_training st \<and> \<not> steps a \<le> total_steps st + 1)"
      using fin st4 k1 False by (simp_all add: Let_def emit_def)
    ultimately show ?thesis using m False by (intro exI [of _ gm] exI [of _ rm] exI [of _ fm] exI [of _ es]) auto
  qed
qed

subsection \<open>The concrete arguments\<close>

lemma demo_args_simps:
  "restart_prob demo_args = 2 / 10" "n_frames demo_args = 3" "world_size demo_args = 2"
  "steps demo_args = 1" "iters demo_args = 15" "edges demo_args = 24" "clip demo_args = 25 / 10"
  "w1 demo_args = 10" "w2 demo_args = 0" "w3 demo_args = 0"
  by (simp_all add: demo_args_def parse_args_def with_default_def default_cli_def)

subsection \<open>One outer step\<close>

lemma run_rounds_quiet:
  assumes "run_rounds c a it Ps gr n st = Inr st'"
  shows "\<exists>es. trace st' = trace st @ es \<and> filter is_train_report es = []"
  using assms
proof (induction n arbitrary: st)
  case 0
  then show ?case by simp
next
  case (Suc n)
  let ?st1 = "st\<lparr>rng := snd (rng_random c (rng st))\<rparr>"
  from Suc.prems obtain st2 where r1: "refinement_round c a it Ps gr ?st1 = Inr st2"
    and r2: "run_rounds c a it Ps gr n st2 = Inr st'" by (rule run_rounds_Suc_Inr)
  from Suc.IH [OF r2] obtain es where es: "trace st' = trace st2 @ es"
    "filter is_train_report es = []" by blast
  have tr: "trace st2 = trace st @ round_events c a it Ps gr ?st1"
    using refinement_round_Inr(1) [OF r1] by simp
  have "filter is_train_report (round_events c a it Ps gr ?st1) = []"
    by (simp add: round_events_def Let_def)
  with es tr have "trace st' = trace st @ (round_events c a it Ps gr ?st1 @ es)
     \<and> filter is_train_report (round_events c a it Ps gr ?st1 @ es) = []" by simp
  then show ?case by blast
qed

lemma train_step_Inr:
  assumes "train_step c gpu a val_loader coin peers it st = Some (Inr st')"
  obtains st0 n stL where
    "init_estimates c (se3_inv_all c (poses it)) (disps it)
       ((emit ZeroGrad st)\<lparr>graph_var := Some (choose_graph c a coin it)\<rparr>) = Inr st0"
    "rounds_spec c (restart_prob a) 0 (rng st) n"
    "run_rounds c a it (se3_inv_all c (poses it)) (choose_graph c a coin it) n st0 = Inr stL"
    "finish_step c gpu a val_loader peers stL = Inr st'"
proof -
  let ?Ps = "se3_inv_all c (poses it)" and ?gr = "choose_graph c a coin it"
  let ?s = "(emit ZeroGrad st)\<lparr>graph_var := Some ?gr\<rparr>"
  from assms obtain st0 where i: "init_estimates c ?Ps (disps it) ?s = Inr st0"
    by (auto simp: train_step_def Let_def split: sum.splits)
  from assms i obtain stL where l: "restart_loop c a it ?Ps ?gr 0 st0 = Some (Inr stL)"
    and f: "finish_step c gpu a val_loader peers stL = Inr st'"
    by (auto simp: train_step_def Let_def split: sum.splits option.splits)
  from restart_loop_rounds [OF l] obtain n where
    n: "rounds_spec c (restart_prob a) 0 (rng st0) n" "run_rounds c a it ?Ps ?gr n st0 = Inr stL"
    by auto
  from init_estimates_Inr [OF i] have "rng st0 = rng st" by (auto simp: emit_def)
  with n i f that show thesis by simp
qed

lemma run_rounds_first:
  assumes "run_rounds c a it Ps gr (Suc n) st = Inr st'"
  shows "\<exists>post. trace st' = trace st @ round_events c a it Ps gr st @ post"
proof -
  let ?st1 = "st\<lparr>rng := snd (rng_random c (rng st))\<rparr>"
  from assms obtain st2 where r1: "refinement_round c a it Ps gr ?st1 = Inr st2"
    and r2: "run_rounds c a it Ps gr n st2 = Inr st'" by (rule run_rounds_Suc_Inr)
  from run_rounds_Inr [OF r2] obtain es where "trace st' = trace st2 @ es" by blast
  moreover have "trace st2 = trace st @ round_events c a it Ps gr ?st1"
    using refinement_round_Inr(1) [OF r1] by simp
  moreover have "round_events c a it Ps gr ?st1 = round_events c a it Ps gr st"
    by (simp add: round_events_def)
  ultimately show ?thesis by simp
qed

lemma run_rounds_last:
  assumes "run_rounds c a it Ps gr (Suc n) st = Inr st'"
  shows "\<exists>s_in pre. refinement_round c a it Ps gr s_in = Inr st' \<and> trace s_in = trace st @ pre
           \<and> backward_count pre = n \<and> filter is_update pre = []"
  using assms
proof (induction n arbitrary: st)
  case 0
  let ?st1 = "st\<lparr>rng := snd (rng_random c (rng st))\<rparr>"
  from 0 obtain st2 where r1: "refinement_round c a it Ps gr ?st1 = Inr st2"
    and r2: "run_rounds c a it Ps gr 0 st2 = Inr st'" by (rule run_rounds_Suc_Inr)
  then have "refinement_round c a it Ps gr ?st1 = Inr st' \<and> trace ?st1 = trace st @ []
      \<and> backward_count [] = (0::nat) \<and> filter is_update ([] :: ('a, 'b) event list) = []"
    by (simp add: backward_count_def)
  then show ?case by blast
next
  case (Suc n)
  let ?st1 = "st\<lparr>rng := snd (rng_random c (rng st))\<rparr>"
  from Suc.prems obtain st2 where r1: "refinement_round c a it Ps gr ?st1 = Inr st2"
    and r2: "run_rounds c a it Ps gr (Suc n) st2 = Inr st'" by (rule run_rounds_Suc_Inr)
  from Suc.IH [OF r2] obtain s_in pre where s: "refinement_round c a it Ps gr s_in = Inr st'"
    "trace s_in = trace st2 @ pre" "backward_count pre = n" "filter is_update pre = []" by blast
  have tr: "trace st2 = trace st @ round_events c a it Ps gr ?st1"
    using refinement_round_Inr(1) [OF r1] by simp
  let ?pre = "round_events c a it Ps gr ?st1 @ pre"
  have "refinement_round c a it Ps gr s_in = Inr st' \<and> trace s_in = trace st @ ?pre
      \<and> backward_count ?pre = Suc n \<and> filter is_update ?pre = []"
    using s tr round_events_shape [of c a it Ps gr ?st1] by simp
  then show ?case by blast
qed

lemma refinement_round_values:
  assumes "refinement_round c a it Ps gr st = Inr st'"
  shows "\<exists>gl rl fl l gm rm fm. geo_loss st' = Some gl \<and> res_loss st' = Some rl
     \<and> flo_loss st' = Some fl \<and> loss st' = Some l \<and> geo_metrics st' = Some gm
     \<and> res_metrics st' = Some rm \<and> flo_metrics st' = Some fm
     \<and> round_values c a it Ps gr st = (gl, rl, fl, l, Map.empty ++ gm ++ rm ++ fm)"
  using assms
  by (auto simp: refinement_round_def round_values_def emit_def Let_def py_last_def
           split: prod.splits sum.splits if_splits)

subsection \<open>The initial estimates\<close>

lemma slice_indices:
  "[k \<leftarrow> [0..<n]. 3 \<le> k \<and> (k - 3) mod 8 = 0] = map (\<lambda>j. 8 * j + 3) [0..<(n + 4) div 8]"
proof (induction n)
  case 0
  show ?case by simp
next
  case (Suc n)
  show ?case
  proof (cases "3 \<le> n \<and> (n - 3) mod 8 = 0")
    case True
    then obtain q where "n - 3 = 8 * q" by (auto simp: mod_eq_0_iff_dvd elim: dvdE)
    with True have n: "n = 8 * q + 3" by simp
    have "(Suc n + 4) div 8 = Suc ((n + 4) div 8)" "n = 8 * ((n + 4) div 8) + 3"
      unfolding n by simp_all
    with Suc True show ?thesis by simp
  next
    case False
    have "(Suc n + 4) mod 8 \<noteq> 0"
    proof
      assume "(Suc n + 4) mod 8 = 0"
      then obtain m where m: "Suc n + 4 = 8 * m" by (auto simp: mod_eq_0_iff_dvd elim: dvdE)
      then have "m \<noteq> 0" by auto
      then obtain m' where "m = Suc m'" by (cases m) auto
      with m have "n = 8 * m' + 3" by simp
      with False show False by simp
    qed
    then have "(Suc n + 4) div 8 = (n + 4) div 8"
      by (metis add_Suc div_Suc)
    with Suc False show ?thesis by simp
  qed
qed

lemma py_slice_3_8:
  "py_slice_from_step 3 8 xs = map (\<lambda>j. xs ! (8 * j + 3)) [0..<(length xs + 4) div 8]"
  by (simp add: py_slice_from_step_def slice_indices comp_def)

lemma ones_like_downsample:
  "ones_like (downsample d) =
     map (map (\<lambda>hw. map (\<lambda>y. replicate ((length (hw ! (8 * y + 3)) + 4) div 8) 1)
                       [0..<(length hw + 4) div 8])) d"
  by (simp add: ones_like_def downsample_def py_slice_3_8 comp_def map_replicate_const)

lemma fix_row:
  assumes "2 \<le> length row"
  shows "take (Suc 0) ((map (\<lambda>_. e) row)[0 := x]) = [x]"
  using assms by (cases row) simp_all

lemma init_estimates_values:
  assumes "init_estimates c Ps ds st = Inr st'"
  shows "list_all (\<lambda>row. 2 \<le> length row) Ps
     \<and> st' = st\<lparr>Gs := map (\<lambda>row. row ! 0 # replicate (length row - 1) (row ! 1)) Ps,
                 disp0 := ones_like (downsample ds)\<rparr>"
proof -
  from assms have l1: "\<not> list_ex (\<lambda>row. length row < 1) Ps"
    by (auto simp: init_estimates_def set_frame0_def Let_def split: if_splits)
  with assms have l2: "\<not> list_ex (\<lambda>row. length row < 2) Ps"
    by (auto simp: init_estimates_def set_frame0_def set_frames_from1_def Let_def split: if_splits)
  have rows: "\<And>row. row \<in> set Ps \<Longrightarrow> 2 \<le> length row"
    using l2 by (auto simp: list_ex_iff not_less)
  let ?G1 = "map2 (\<lambda>g row. g[0 := row ! 0]) (identity_like c Ps) Ps"
  let ?G2 = "map2 (\<lambda>g row. take 1 g @ replicate (length g - 1) (row ! 1)) ?G1 Ps"
  have eq: "?G2 = map (\<lambda>row. row ! 0 # replicate (length row - 1) (row ! 1)) Ps"
    using fix_row [OF rows]
    by (auto simp: identity_like_def zip_map1 zip_same_conv_map intro!: map_cong [OF refl])
  have f0: "set_frame0 (identity_like c Ps) Ps = Inr ?G1"
    using l1 by (simp add: set_frame0_def)
  have f1: "set_frames_from1 ?G1 Ps = Inr ?G2"
    using l2 by (simp add: set_frames_from1_def)
  from assms have "st' = st\<lparr>Gs := ?G2, disp0 := ones_like (downsample ds)\<rparr>"
    by (simp add: init_estimates_def Let_def f0 f1)
  with eq rows show ?thesis
    by (simp add: list_all_iff)
qed

subsection \<open>A concrete step\<close>

lemmas demo_eval =
  train_step_def Let_def emit_def init_estimates_def se3_inv_all_def identity_like_def
  set_frame0_def set_frames_from1_def demo_item_def demo_frame_def demo_collab_def
  initial_state_def demo_args_simps restart_loop.simps refinement_round_def
  scale_intrinsics_def py_last_def finish_step_def log_step_def downsample_def ones_like_def
  py_slice_from_step_def window_graph_alist py_range_def upto_rec1 choose_graph_def

lemma demo_step_completes:
  "\<exists>st'. train_step demo_collab 0 demo_args [] (7 / 10) [] (demo_item 1)
           (initial_state demo_collab 0) = Some (Inr st')"
proof -
  have "case train_step demo_collab 0 demo_args [] (7 / 10) [] (demo_item 1)
           (initial_state demo_collab 0) of Some (Inr _) \<Rightarrow> True | _ \<Rightarrow> False"
    by (simp add: demo_eval)
  then show ?thesis by (auto split: option.splits sum.splits)
qed

lemma demo_rounds_spec: "rounds_spec demo_collab (restart_prob demo_args) 0 (0::nat) 3"
  by (simp add: eval_nat_numeral demo_args_simps demo_collab_def)

lemma demo_initial:
  "trace (initial_state demo_collab 0) = []" "rng (initial_state demo_collab 0) = 0"
  "total_steps (initial_state demo_collab 0) = 0"
  by (simp_all add: initial_state_def demo_collab_def)

lemma demo_round_values:
  "round_values demo_collab demo_args (demo_item 1) (se3_inv_all demo_collab (poses (demo_item 1))) gr s
     = (1, 0, 0, 10, [''rot_error'' \<mapsto> 1, ''tr_error'' \<mapsto> 0, ''residual'' \<mapsto> 0, ''f_error'' \<mapsto> 0])"
  by (simp add: round_values_def demo_collab_def demo_item_def demo_args_simps se3_inv_all_def Let_def)

subsection \<open>Gradient handling within a step\<close>

text \<open>
  Claim C7. In every outer training step that completes, the calls that touch gradients,
  weights or the schedule are, in order: one \<^verbatim>\<open>optimizer.zero_grad()\<close> before the first
  refinement round, none during the rounds (however many the restart loop executes: the
  number of \<^verbatim>\<open>backward\<close> calls is the number of rounds), and after the last round one
  \<^verbatim>\<open>clip_grad_norm_\<close> with the configured maximum, one \<^verbatim>\<open>optimizer.step()\<close> and one
  \<^verbatim>\<open>scheduler.step()\<close>; nothing after them in the step clears, computes or applies
  gradients.
\<close>

theorem gradient_update_once_per_step:
  assumes "train_step c gpu a val_loader coin peers it st = Some (Inr st')"
  shows "\<exists>rounds tail.
      trace st' = trace st @ [ZeroGrad] @ rounds
                    @ [ClipGradNorm (clip a), OptimizerStep, SchedulerStep] @ tail
    \<and> filter is_update rounds = [] \<and> filter is_update tail = [] \<and> filter is_backward tail = []
    \<and> rounds_spec c (restart_prob a) 0 (rng st) (backward_count rounds)"
proof -
  let ?Ps = "se3_inv_all c (poses it)" and ?gr = "choose_graph c a coin it"
  from assms obtain st0 n stL where
    i: "init_estimates c ?Ps (disps it) ((emit ZeroGrad st)\<lparr>graph_var := Some ?gr\<rparr>) = Inr st0"
    and sp: "rounds_spec c (restart_prob a) 0 (rng st) n"
    and rr: "run_rounds c a it ?Ps ?gr n st0 = Inr stL"
    and f: "finish_step c gpu a val_loader peers stL = Inr st'"
    by (rule train_step_Inr)
  from init_estimates_Inr [OF i] have t0: "trace st0 = trace st @ [ZeroGrad]"
    by (auto simp: emit_def)
  from run_rounds_Inr [OF rr] obtain es where es: "trace stL = trace st0 @ es"
    "backward_count es = n" "filter is_update es = []" by blast
  from finish_step_Inr [OF f] obtain tail where
    tl: "trace st' = trace stL @ [ClipGradNorm (clip a), OptimizerStep, SchedulerStep] @ tail"
    "filter is_update tail = []" "filter is_backward tail = []" by blast
  have "trace st' = trace st @ [ZeroGrad] @ es
                    @ [ClipGradNorm (clip a), OptimizerStep, SchedulerStep] @ tail"
    using t0 es(1) tl(1) by simp
  with es tl sp show ?thesis by blast
qed

theorem gradient_update_once_per_step_witness:
  "\<exists>st'. train_step demo_collab 0 demo_args [] (7 / 10) [] (demo_item 1)
           (initial_state demo_collab 0) = Some (Inr st')
     \<and> filter is_update (trace st') = [ZeroGrad, ClipGradNorm (25 / 10), OptimizerStep, SchedulerStep]
     \<and> backward_count (trace st') = 3"
proof -
  from demo_step_completes obtain st' where
    ev: "train_step demo_collab 0 demo_args [] (7 / 10) [] (demo_item 1)
           (initial_state demo_collab 0) = Some (Inr st')" by blast
  from gradient_update_once_per_step [OF ev] obtain rounds tail where
    t: "trace st' = trace (initial_state demo_collab 0) @ [ZeroGrad] @ rounds
                    @ [ClipGradNorm (clip demo_args), OptimizerStep, SchedulerStep] @ tail"
    and q: "filter is_update rounds = []" "filter is_update tail = []" "filter is_backward tail = []"
    and sp: "rounds_spec demo_collab (restart_prob demo_args) 0
               (rng (initial_state demo_collab 0)) (backward_count rounds)"
    by blast
  from sp demo_rounds_spec have "backward_count rounds = 3"
    unfolding demo_initial by (rule rounds_spec_unique)
  with t q have "filter is_update (trace st') = [ZeroGrad, ClipGradNorm (25 / 10), OptimizerStep, SchedulerStep]
     \<and> backward_count (trace st') = 3"
    by (simp add: demo_initial demo_args_simps backward_count_def)
  with ev show ?thesis by blast
qed

subsection \<open>The initial estimates of a step\<close>

text \<open>
  Claim C9. In every outer training step that completes with a positive restart
  probability, the first call of the network in the step receives: a pose estimate whose
  frame 0 is the ground-truth pose of frame 0 and whose frames \<open>1, ..., N - 1\<close> are all the
  ground-truth pose of frame 1 (the ground truth being \<^verbatim>\<open>SE3(poses).inv()\<close>, with at least
  two frames per sample); an inverse-depth estimate that is 1 everywhere and has one entry
  per pixel \<open>(8y + 3, 8x + 3)\<close> of the image, that is one per 8 \<open>\<times>\<close> 8 block at offset 3; and
  the batch intrinsics divided by 8.
\<close>

theorem step_initial_estimates:
  assumes "train_step c gpu a val_loader coin peers it st = Some (Inr st')"
    and "0 < restart_prob a"
  shows "\<exists>G D K rest.
      trace st' = trace st @ ZeroGrad
                    # ModelCall G (images it) D K (choose_graph c a coin it) (iters a) 2 # rest
    \<and> list_all (\<lambda>row. 2 \<le> length row) (se3_inv_all c (poses it))
    \<and> G = map (\<lambda>row. row ! 0 # replicate (length row - 1) (row ! 1)) (se3_inv_all c (poses it))
    \<and> D = map (map (\<lambda>hw. map (\<lambda>y. replicate ((length (hw ! (8 * y + 3)) + 4) div 8) 1)
                          [0..<(length hw + 4) div 8])) (disps it)
    \<and> K = map (map (map (\<lambda>x. x / 8))) (intrinsics it)"
proof -
  let ?Ps = "se3_inv_all c (poses it)" and ?gr = "choose_graph c a coin it"
  let ?s = "(emit ZeroGrad st)\<lparr>graph_var := Some ?gr\<rparr>"
  from assms(1) obtain st0 n stL where
    i: "init_estimates c ?Ps (disps it) ?s = Inr st0"
    and sp: "rounds_spec c (restart_prob a) 0 (rng st) n"
    and rr: "run_rounds c a it ?Ps ?gr n st0 = Inr stL"
    and f: "finish_step c gpu a val_loader peers stL = Inr st'"
    by (rule train_step_Inr)
  from sp assms(2) obtain k where n: "n = Suc k" by (cases n) auto
  note iv = init_estimates_values [OF i]
  let ?G = "map (\<lambda>row. row ! 0 # replicate (length row - 1) (row ! 1)) ?Ps"
  from iv have s0: "trace st0 = trace st @ [ZeroGrad]" "Gs st0 = ?G"
    "disp0 st0 = ones_like (downsample (disps it))"
    by (simp_all add: emit_def)
  from run_rounds_first [OF rr [unfolded n]] obtain post where
    p: "trace stL = trace st0 @ round_events c a it ?Ps ?gr st0 @ post" by blast
  from finish_step_Inr [OF f] obtain tail where
    tl: "trace st' = trace stL @ [ClipGradNorm (clip a), OptimizerStep, SchedulerStep] @ tail"
    by blast
  obtain rest0 where re: "round_events c a it ?Ps ?gr st0 =
     ModelCall ?G (images it) (ones_like (downsample (disps it))) (scale_intrinsics (intrinsics it))
       ?gr (iters a) 2 # rest0"
    by (simp add: round_events_def Let_def s0)
  have "trace st' = trace st @ ZeroGrad
     # ModelCall ?G (images it) (ones_like (downsample (disps it)))
         (scale_intrinsics (intrinsics it)) ?gr (iters a) 2
     # (rest0 @ post @ [ClipGradNorm (clip a), OptimizerStep, SchedulerStep] @ tail)"
    using tl p s0(1) re by simp
  with iv show ?thesis
    unfolding ones_like_downsample scale_intrinsics_def by blast
qed

theorem step_initial_estimates_witness:
  "\<exists>st' rest. train_step demo_collab 0 demo_args [] (7 / 10) [] (demo_item 1)
           (initial_state demo_collab 0) = Some (Inr st')
     \<and> trace st' = ZeroGrad
         # ModelCall [[1, - 2, - 2]] 0 [[[[1, 1]], [[1, 1]], [[1, 1]]]]
             [[[1, 1, 1 / 2, 1 / 2], [1, 1, 1 / 2, 1 / 2], [1, 1, 1 / 2, 1 / 2]]]
             (window_graph 3) 15 2
         # rest"
proof -
  let ?st = "initial_state demo_collab 0"
  from demo_step_completes obtain st' where
    ev: "train_step demo_collab 0 demo_args [] (7 / 10) [] (demo_item 1) ?st = Some (Inr st')"
    by blast
  have p: "0 < restart_prob demo_args" by (simp add: demo_args_simps)
  from step_initial_estimates [OF ev p] obtain G D K rest where
    h: "trace st' = trace ?st @ ZeroGrad
          # ModelCall G (images (demo_item 1)) D K
              (choose_graph demo_collab demo_args (7 / 10) (demo_item 1)) (iters demo_args) 2 # rest"
       "G = map (\<lambda>row. row ! 0 # replicate (length row - 1) (row ! 1))
              (se3_inv_all demo_collab (poses (demo_item 1)))"
       "D = map (map (\<lambda>hw. map (\<lambda>y. replicate ((length (hw ! (8 * y + 3)) + 4) div 8) 1)
                          [0..<(length hw + 4) div 8])) (disps (demo_item 1))"
       "K = map (map (map (\<lambda>x. x / 8))) (intrinsics (demo_item 1))"
    by blast
  have "G = [[1, - 2, - 2]]"
    unfolding h(2) by (simp add: se3_inv_all_def demo_item_def demo_collab_def eval_nat_numeral)
  moreover have "D = [[[[1, 1]], [[1, 1]], [[1, 1]]]]"
  proof -
    have "D = ones_like (downsample (disps (demo_item 1)))"
      unfolding h(3) by (simp only: ones_like_downsample)
    then show ?thesis
      by (simp add: ones_like_def downsample_def py_slice_from_step_def demo_item_def
          demo_frame_def)
  qed
  moreover have "K = [[[1, 1, 1 / 2, 1 / 2], [1, 1, 1 / 2, 1 / 2], [1, 1, 1 / 2, 1 / 2]]]"
    unfolding h(4) by (simp add: demo_item_def)
  ultimately have "trace st' = ZeroGrad
         # ModelCall [[1, - 2, - 2]] 0 [[[[1, 1]], [[1, 1]], [[1, 1]]]]
             [[[1, 1, 1 / 2, 1 / 2], [1, 1, 1 / 2, 1 / 2], [1, 1, 1 / 2, 1 / 2]]]
             (window_graph 3) 15 2
         # rest"
    using h(1) by (simp add: demo_initial demo_item_def choose_graph_def demo_args_simps)
  with ev show ?thesis by blast
qed

subsection \<open>What a step reports\<close>

text \<open>
  Claim C10. In every outer training step that completes with a positive restart
  probability, so that \<open>k + 1 \<ge> 1\<close> rounds are executed, the step's reports are exactly the
  one \<^verbatim>\<open>wandb.log\<close> call and the one \<^verbatim>\<open>logger.push\<close> call of rank 0 (none on other ranks),
  made after the last round, and the three losses, the combined loss and the
  rotation/translation/flow errors they carry are the values computed by the last round
  (the one that starts after \<open>k\<close> earlier gradient computations); nothing is reported
  during the rounds.
\<close>

theorem step_reports_final_round:
  assumes "train_step c gpu a val_loader coin peers it st = Some (Inr st')"
    and "0 < restart_prob a"
  shows "\<exists>k s_in pre post gl rl fl l m lrv.
      rounds_spec c (restart_prob a) 0 (rng st) (Suc k)
    \<and> trace s_in = trace st @ [ZeroGrad] @ pre \<and> backward_count pre = k
    \<and> round_values c a it (se3_inv_all c (poses it)) (choose_graph c a coin it) s_in
        = (gl, rl, fl, l, m)
    \<and> trace st' = trace s_in
        @ round_events c a it (se3_inv_all c (poses it)) (choose_graph c a coin it) s_in @ post
    \<and> filter is_backward post = []
    \<and> filter is_train_report post =
        (if gpu = 0
         then [WandbLogTrain (step_log gl rl fl l lrv m) (total_steps st + 1), LoggerPush m]
         else [])
    \<and> filter is_train_report (pre @ round_events c a it (se3_inv_all c (poses it))
        (choose_graph c a coin it) s_in) = []"
proof -
  let ?Ps = "se3_inv_all c (poses it)" and ?gr = "choose_graph c a coin it"
  from assms(1) obtain st0 n stL where
    i: "init_estimates c ?Ps (disps it) ((emit ZeroGrad st)\<lparr>graph_var := Some ?gr\<rparr>) = Inr st0"
    and sp: "rounds_spec c (restart_prob a) 0 (rng st) n"
    and rr: "run_rounds c a it ?Ps ?gr n st0 = Inr stL"
    and f: "finish_step c gpu a val_loader peers stL = Inr st'"
    by (rule train_step_Inr)
  from sp assms(2) obtain k where n: "n = Suc k" by (cases n) auto
  from init_estimates_Inr [OF i] have t0: "trace st0 = trace st @ [ZeroGrad]"
    and ts0: "total_steps st0 = total_steps st"
    by (auto simp: emit_def)
  from run_rounds_last [OF rr [unfolded n]] obtain s_in pre where
    s: "refinement_round c a it ?Ps ?gr s_in = Inr stL" "trace s_in = trace st0 @ pre"
       "backward_count pre = k" "filter is_update pre = []" by blast
  from refinement_round_values [OF s(1)] obtain gl rl fl l gm rm fm where
    v: "geo_loss stL = Some gl" "res_loss stL = Some rl" "flo_loss stL = Some fl"
       "loss stL = Some l" "geo_metrics stL = Some gm" "res_metrics stL = Some rm"
       "flo_metrics stL = Some fm"
       "round_values c a it ?Ps ?gr s_in = (gl, rl, fl, l, Map.empty ++ gm ++ rm ++ fm)"
    by blast
  let ?m = "Map.empty ++ gm ++ rm ++ fm"
  have tL: "trace stL = trace s_in @ round_events c a it ?Ps ?gr s_in"
    by (rule refinement_round_Inr(1) [OF s(1)])
  have tsL: "total_steps stL = total_steps st"
    using run_rounds_Inr [OF rr] ts0 by simp
  from finish_step_Inr [OF f] obtain gm' rm' fm' tail where
    tl: "trace st' = trace stL @ [ClipGradNorm (clip a), OptimizerStep, SchedulerStep] @ tail"
      "filter is_backward tail = []"
    and ms: "geo_metrics stL = Some gm'" "res_metrics stL = Some rm'" "flo_metrics stL = Some fm'"
    and rep0: "if gpu = 0
          then \<exists>gl rl fl l lrv. geo_loss stL = Some gl \<and> res_loss stL = Some rl
                 \<and> flo_loss stL = Some fl \<and> loss stL = Some l
                 \<and> filter is_train_report tail =
                     [WandbLogTrain (step_log gl rl fl l lrv (Map.empty ++ gm' ++ rm' ++ fm'))
                        (total_steps stL + 1),
                      LoggerPush (Map.empty ++ gm' ++ rm' ++ fm')]
          else filter is_train_report tail = []"
    by blast
  from ms v have meq: "gm' = gm" "rm' = rm" "fm' = fm" by simp_all
  have "\<exists>lrv. filter is_train_report tail =
      (if gpu = 0 then [WandbLogTrain (step_log gl rl fl l lrv ?m) (total_steps st + 1), LoggerPush ?m]
       else [])"
  proof (cases "gpu = 0")
    case True
    with rep0 obtain gl' rl' fl' l' lrv where "geo_loss stL = Some gl'" "res_loss stL = Some rl'"
      "flo_loss stL = Some fl'" "loss stL = Some l'"
      "filter is_train_report tail =
         [WandbLogTrain (step_log gl' rl' fl' l' lrv ?m) (total_steps stL + 1), LoggerPush ?m]"
      unfolding meq by auto
    with v True tsL show ?thesis by auto
  next
    case False
    with rep0 show ?thesis by simp
  qed
  then obtain lrv where rep: "filter is_train_report tail =
      (if gpu = 0 then [WandbLogTrain (step_log gl rl fl l lrv ?m) (total_steps st + 1), LoggerPush ?m]
       else [])" by blast
  let ?post = "[ClipGradNorm (clip a), OptimizerStep, SchedulerStep] @ tail"
  have pre_quiet: "filter is_train_report (pre @ round_events c a it ?Ps ?gr s_in) = []"
  proof -
    have "trace stL = trace st0 @ (pre @ round_events c a it ?Ps ?gr s_in)"
      using tL s(2) by simp
    moreover from run_rounds_quiet [OF rr] obtain es where
      "trace stL = trace st0 @ es" "filter is_train_report es = []" by blast
    ultimately show ?thesis by simp
  qed
  have "rounds_spec c (restart_prob a) 0 (rng st) (Suc k)
    \<and> trace s_in = trace st @ [ZeroGrad] @ pre \<and> backward_count pre = k
    \<and> round_values c a it ?Ps ?gr s_in = (gl, rl, fl, l, ?m)
    \<and> trace st' = trace s_in @ round_events c a it ?Ps ?gr s_in @ ?post
    \<and> filter is_backward ?post = []
    \<and> filter is_train_report ?post =
        (if gpu = 0
         then [WandbLogTrain (step_log gl rl fl l lrv ?m) (total_steps st + 1), LoggerPush ?m]
         else [])
    \<and> filter is_train_report (pre @ round_events c a it ?Ps ?gr s_in) = []"
    using sp n s t0 v(8) tL tl(1,2) rep pre_quiet by simp
  then show ?thesis by blast
qed

theorem step_reports_final_round_witness:
  "\<exists>st' lrv. train_step demo_collab 0 demo_args [] (7 / 10) [] (demo_item 1)
           (initial_state demo_collab 0) = Some (Inr st')
     \<and> filter is_train_report (trace st') =
         [WandbLogTrain (step_log 1 0 0 10 lrv
            [''rot_error'' \<mapsto> 1, ''tr_error'' \<mapsto> 0, ''residual'' \<mapsto> 0, ''f_error'' \<mapsto> 0]) 1,
          LoggerPush [''rot_error'' \<mapsto> 1, ''tr_error'' \<mapsto> 0, ''residual'' \<mapsto> 0, ''f_error'' \<mapsto> 0]]"
proof -
  let ?st = "initial_state demo_collab 0"
  let ?Ps = "se3_inv_all demo_collab (poses (demo_item 1))"
  let ?gr = "choose_graph demo_collab demo_args (7 / 10) (demo_item 1)"
  let ?m = "[''rot_error'' \<mapsto> 1::real, ''tr_error'' \<mapsto> 0, ''residual'' \<mapsto> 0, ''f_error'' \<mapsto> 0]"
  from demo_step_completes obtain st' where
    ev: "train_step demo_collab 0 demo_args [] (7 / 10) [] (demo_item 1) ?st = Some (Inr st')"
    by blast
  have p: "0 < restart_prob demo_args" by (simp add: demo_args_simps)
  from step_reports_final_round [OF ev p] obtain k s_in pre post gl rl fl l m lrv where
    h: "trace s_in = trace ?st @ [ZeroGrad] @ pre"
       "round_values demo_collab demo_args (demo_item 1) ?Ps ?gr s_in = (gl, rl, fl, l, m)"
       "trace st' = trace s_in @ round_events demo_collab demo_args (demo_item 1) ?Ps ?gr s_in @ post"
       "filter is_train_report post =
          (if (0::int) = 0
           then [WandbLogTrain (step_log gl rl fl l lrv m) (total_steps ?st + 1), LoggerPush m]
           else [])"
       "filter is_train_report (pre @ round_events demo_collab demo_args (demo_item 1) ?Ps ?gr s_in) = []"
    by blast
  from h(2) have v: "gl = 1" "rl = 0" "fl = 0" "l = 10" "m = ?m"
    unfolding demo_round_values by simp_all
  have "filter is_train_report (trace st') =
     [WandbLogTrain (step_log 1 0 0 10 lrv ?m) 1, LoggerPush ?m]"
    using h(1,3,4,5) unfolding v by (simp add: demo_initial)
  with ev show ?thesis by blast
qed

subsection \<open>The restart stream does not depend on the rank\<close>

lemma foldr_rc_step_acc:
  "foldr rc_step tr (k, ks) = (fst (foldr rc_step tr (k, [])), snd (foldr rc_step tr (k, [])) @ ks)"
proof (induction tr)
  case Nil
  show ?case by simp
next
  case (Cons e tr)
  obtain k' ks' where r: "foldr rc_step tr (k, []) = (k', ks')" by (cases "foldr rc_step tr (k, [])")
  with Cons have "foldr rc_step tr (k, ks) = (k', ks' @ ks)" by simp
  with r show ?case by (cases e) simp_all
qed

lemma foldr_rc_step_segment:
  "ZeroGrad \<notin> set seg \<Longrightarrow> foldr rc_step seg (0, []) = (backward_count seg, [])"
proof (induction seg)
  case Nil
  show ?case by (simp add: backward_count_def)
next
  case (Cons e seg)
  then show ?case by (cases e) (simp_all add: backward_count_def)
qed

lemma round_counts_Nil [simp]: "round_counts [] = []"
  by (simp add: round_counts_def)

lemma round_counts_step:
  assumes "ZeroGrad \<notin> set seg"
  shows "round_counts (tr @ ZeroGrad # seg) = round_counts tr @ [backward_count seg]"
proof -
  have "foldr rc_step (tr @ ZeroGrad # seg) (0, []) = foldr rc_step tr (0, [backward_count seg])"
    using foldr_rc_step_segment [OF assms] by simp
  then show ?thesis
    unfolding round_counts_def by (subst (asm) foldr_rc_step_acc) simp
qed

lemma steps_spec_append:
  "steps_spec c p g ns g1 \<Longrightarrow> steps_spec c p g1 ms g2 \<Longrightarrow> steps_spec c p g (ns @ ms) g2"
  by (induction ns arbitrary: g) auto

lemma steps_spec_unique:
  "steps_spec c p g ns g1 \<Longrightarrow> steps_spec c p g ms g2 \<Longrightarrow> length ns = length ms \<Longrightarrow> ns = ms"
proof (induction ns arbitrary: g ms)
  case Nil
  then show ?case by simp
next
  case (Cons n ns)
  then obtain m ms' where ms: "ms = m # ms'" by (cases ms) auto
  with Cons.prems have nm: "n = m" by (auto dest: rounds_spec_unique)
  with Cons.prems ms Cons.IH [of "rng_after c n g" ms'] show ?case by simp
qed

lemma train_step_sync:
  assumes "train_step c gpu a val_loader coin peers it st = Some (Inr st')"
  shows "\<exists>n. rounds_spec c (restart_prob a) 0 (rng st) n \<and> rng st' = rng_after c n (rng st)
     \<and> round_counts (trace st') = round_counts (trace st) @ [n]
     \<and> total_steps st' = total_steps st + 1
     \<and> should_keep_training st' = (should_keep_training st \<and> \<not> steps a \<le> total_steps st + 1)"
proof -
  let ?Ps = "se3_inv_all c (poses it)" and ?gr = "choose_graph c a coin it"
  from assms obtain st0 n stL where
    i: "init_estimates c ?Ps (disps it) ((emit ZeroGrad st)\<lparr>graph_var := Some ?gr\<rparr>) = Inr st0"
    and sp: "rounds_spec c (restart_prob a) 0 (rng st) n"
    and rr: "run_rounds c a it ?Ps ?gr n st0 = Inr stL"
    and f: "finish_step c gpu a val_loader peers stL = Inr st'"
    by (rule train_step_Inr)
  from init_estimates_Inr [OF i] have s0: "trace st0 = trace st @ [ZeroGrad]"
    "rng st0 = rng st" "total_steps st0 = total_steps st"
    "should_keep_training st0 = should_keep_training st"
    by (auto simp: emit_def)
  from run_rounds_Inr [OF rr] obtain es where es: "trace stL = trace st0 @ es"
    "backward_count es = n" "filter is_update es = []"
    and sL: "rng stL = rng_after c n (rng st0)" "total_steps stL = total_steps st0"
      "should_keep_training stL = should_keep_training st0" by blast
  from finish_step_Inr [OF f] obtain tail where
    tl: "trace st' = trace stL @ [ClipGradNorm (clip a), OptimizerStep, SchedulerStep] @ tail"
      "filter is_update tail = []" "filter is_backward tail = []"
    and s': "rng st' = rng stL" "total_steps st' = total_steps stL + 1"
      "should_keep_training st' = (should_keep_training stL \<and> \<not> steps a \<le> total_steps stL + 1)"
    by blast
  let ?seg = "es @ [ClipGradNorm (clip a), OptimizerStep, SchedulerStep] @ tail"
  have nz: "ZeroGrad \<notin> set ?seg"
    using es(3) tl(2) by (auto simp: filter_empty_conv)
  have bc: "backward_count ?seg = n"
    using es(2) tl(3) by (simp add: backward_count_def)
  have "trace st' = trace st @ ZeroGrad # ?seg"
    using tl(1) es(1) s0(1) by simp
  then have "round_counts (trace st') = round_counts (trace st) @ [n]"
    using round_counts_step [OF nz, of "trace st"] bc by simp
  with sp s0 sL s' show ?thesis by auto
qed

lemma train_epoch_sync:
  assumes "train_epoch c gpu a val_loader xs st = Some (Inr st')"
    and "loop_inv a st" and "should_keep_training st"
  shows "loop_inv a st' \<and> (\<exists>ns. steps_spec c (restart_prob a) (rng st) ns (rng st')
     \<and> round_counts (trace st') = round_counts (trace st) @ ns
     \<and> total_steps st' = total_steps st + int (length ns))"
  using assms
proof (induction xs arbitrary: st)
  case Nil
  then have "st' = st" by simp
  with Nil show ?case by (intro conjI exI [of _ "[]"]) simp_all
next
  case (Cons x xs)
  from Cons.prems(1) obtain st1 where
    t: "train_step c gpu a val_loader (coin_of x) (peers_of x) (item_of x) st = Some (Inr st1)"
    and rest: "(if total_steps st1 \<ge> steps a then Some (Inr st1)
                else train_epoch c gpu a val_loader xs st1) = Some (Inr st')"
    by (auto split: option.splits sum.splits)
  from train_step_sync [OF t] obtain n where
    n: "rounds_spec c (restart_prob a) 0 (rng st) n" "rng st1 = rng_after c n (rng st)"
       "round_counts (trace st1) = round_counts (trace st) @ [n]"
       "total_steps st1 = total_steps st + 1"
       "should_keep_training st1 = (should_keep_training st \<and> \<not> steps a \<le> total_steps st + 1)"
    by blast
  have inv1: "loop_inv a st1"
    using Cons.prems(2,3) n(4,5) by (auto simp: loop_inv_def)
  show ?case
  proof (cases "total_steps st1 \<ge> steps a")
    case True
    with rest have "st' = st1" by simp
    with n inv1 show ?thesis by (intro conjI exI [of _ "[n]"]) simp_all
  next
    case False
    with rest have e: "train_epoch c gpu a val_loader xs st1 = Some (Inr st')" by simp
    from False n Cons.prems(3) have k: "should_keep_training st1" by simp
    from Cons.IH [OF e inv1 k] obtain ns where
      ns: "loop_inv a st'" "steps_spec c (restart_prob a) (rng st1) ns (rng st')"
        "round_counts (trace st') = round_counts (trace st1) @ ns"
        "total_steps st' = total_steps st1 + int (length ns)" by blast
    with n show ?thesis by (intro conjI exI [of _ "n # ns"]) simp_all
  qed
qed

lemma train_loop_sync:
  assumes "train_loop c gpu a val_loader epochs k st = Some res"
  shows "loop_inv a st \<longrightarrow> (\<forall>st'. res = Inr st' \<longrightarrow>
     loop_inv a st' \<and> \<not> should_keep_training st'
     \<and> (\<exists>ns. steps_spec c (restart_prob a) (rng st) ns (rng st')
        \<and> round_counts (trace st') = round_counts (trace st) @ ns
        \<and> total_steps st' = total_steps st + int (length ns)))"
  using assms
proof (induction c gpu a val_loader epochs k st res
    rule: train_loop.raw_induct [rotated 1, consumes 1, case_names 1])
  case (1 loop c gpu a val_loader epochs k st res)
  show ?case
  proof (intro impI allI)
    fix st'
    assume inv: "loop_inv a st" and res: "res = Inr st'"
    show "loop_inv a st' \<and> \<not> should_keep_training st'
     \<and> (\<exists>ns. steps_spec c (restart_prob a) (rng st) ns (rng st')
        \<and> round_counts (trace st') = round_counts (trace st) @ ns
        \<and> total_steps st' = total_steps st + int (length ns))"
    proof (cases "should_keep_training st")
      case False
      with 1(2) res have "st' = st" by simp
      with inv False show ?thesis by (intro conjI exI [of _ "[]"]) simp_all
    next
      case True
      with 1(2) res obtain st1 where
        e: "train_epoch c gpu a val_loader (epochs k) st = Some (Inr st1)"
        and l: "loop c gpu a val_loader epochs (Suc k) st1 = Some (Inr st')"
        by (auto split: option.splits sum.splits)
      from train_epoch_sync [OF e inv True] obtain ns where
        ns: "loop_inv a st1" "steps_spec c (restart_prob a) (rng st) ns (rng st1)"
          "round_counts (trace st1) = round_counts (trace st) @ ns"
          "total_steps st1 = total_steps st + int (length ns)" by blast
      from 1(1) [OF l] ns(1) obtain ms where
        ms: "loop_inv a st'" "\<not> should_keep_training st'"
          "steps_spec c (restart_prob a) (rng st1) ms (rng st')"
          "round_counts (trace st') = round_counts (trace st1) @ ms"
          "total_steps st' = total_steps st1 + int (length ms)" by blast
      from steps_spec_append [OF ns(2) ms(3)] ns ms show ?thesis
        by (intro conjI exI [of _ "ns @ ms"]) simp_all
    qed
  qed
qed

lemma demo_train_rank0:
  "case train demo_collab 0 (demo_args\<lparr>steps := 2\<rparr>) []
          (\<lambda>n. [\<lparr>coin_of = 7 / 10, peers_of = [], item_of = demo_item 1\<rparr>]) of
     Some (Inr s) \<Rightarrow> round_counts (trace s) = [3, 1]
   | _ \<Rightarrow> False"
  by (simp add: train_def train_loop.simps demo_eval round_counts_def)

lemma demo_train_rank1:
  "case train demo_collab 1 (demo_args\<lparr>steps := 2\<rparr>) []
          (\<lambda>n. [\<lparr>coin_of = 1 / 10, peers_of = [], item_of = demo_item 5\<rparr>,
                 \<lparr>coin_of = 9 / 10, peers_of = [], item_of = demo_item 6\<rparr>]) of
     Some (Inr s) \<Rightarrow> True
   | _ \<Rightarrow> False"
  by (simp add: train_def train_loop.simps demo_eval)

text \<open>
  Claim C3. The restart generator is created from the constant seed 12345 on every rank.
  If two processes (of any ranks, with any validation loaders, batches, graph coins and
  epoch lengths) run \<^verbatim>\<open>train\<close> with the same collaborators and the same arguments and both
  finish, they execute the same number of outer steps and, in each outer step, the same
  number of refinement rounds, hence of gradient computations.
\<close>

theorem restart_rounds_rank_independent:
  assumes "train c gpu1 a val_loader1 epochs1 = Some (Inr st1)"
    and "train c gpu2 a val_loader2 epochs2 = Some (Inr st2)"
  shows "rng (initial_state c gpu1) = default_rng c 12345
     \<and> rng (initial_state c gpu2) = default_rng c 12345
     \<and> round_counts (trace st1) = round_counts (trace st2)
     \<and> int (length (round_counts (trace st1))) = max 1 (steps a)"
proof -
  have i: "\<And>gpu. loop_inv a (initial_state c gpu)" "\<And>gpu. trace (initial_state c gpu) = []"
    "\<And>gpu. rng (initial_state c gpu) = default_rng c 12345"
    "\<And>gpu. total_steps (initial_state c gpu) = 0"
    by (simp_all add: loop_inv_def initial_state_def)
  from train_loop_sync [OF assms(1) [unfolded train_def]] i(1) obtain ns where
    ns: "loop_inv a st1" "\<not> should_keep_training st1"
      "steps_spec c (restart_prob a) (default_rng c 12345) ns (rng st1)"
      "round_counts (trace st1) = ns" "total_steps st1 = int (length ns)"
    by (auto simp: i)
  from train_loop_sync [OF assms(2) [unfolded train_def]] i(1) obtain ms where
    ms: "loop_inv a st2" "\<not> should_keep_training st2"
      "steps_spec c (restart_prob a) (default_rng c 12345) ms (rng st2)"
      "round_counts (trace st2) = ms" "total_steps st2 = int (length ms)"
    by (auto simp: i)
  from ns ms have len: "int (length ns) = max 1 (steps a)" "int (length ms) = max 1 (steps a)"
    by (simp_all add: loop_inv_def)
  then have "length ns = length ms" by simp
  from steps_spec_unique [OF ns(3) ms(3) this] have eq: "ns = ms" .
  with eq ns ms len i show ?thesis by simp
qed

theorem restart_rounds_rank_independent_witness:
  "\<exists>s1 s2.
     train demo_collab 0 (demo_args\<lparr>steps := 2\<rparr>) []
       (\<lambda>n. [\<lparr>coin_of = 7 / 10, peers_of = [], item_of = demo_item 1\<rparr>]) = Some (Inr s1)
   \<and> train demo_collab 1 (demo_args\<lparr>steps := 2\<rparr>) []
       (\<lambda>n. [\<lparr>coin_of = 1 / 10, peers_of = [], item_of = demo_item 5\<rparr>,
              \<lparr>coin_of = 9 / 10, peers_of = [], item_of = demo_item 6\<rparr>]) = Some (Inr s2)
   \<and> round_counts (trace s1) = [3, 1] \<and> round_counts (trace s2) = [3, 1]"
proof -
  from demo_train_rank0 obtain s1 where
    r1: "train demo_collab 0 (demo_args\<lparr>steps := 2\<rparr>) []
       (\<lambda>n. [\<lparr>coin_of = 7 / 10, peers_of = [], item_of = demo_item 1\<rparr>]) = Some (Inr s1)"
    and c1: "round_counts (trace s1) = [3, 1]"
    by (auto split: option.splits sum.splits)
  from demo_train_rank1 obtain s2 where
    r2: "train demo_collab 1 (demo_args\<lparr>steps := 2\<rparr>) []
       (\<lambda>n. [\<lparr>coin_of = 1 / 10, peers_of = [], item_of = demo_item 5\<rparr>,
              \<lparr>coin_of = 9 / 10, peers_of = [], item_of = demo_item 6\<rparr>]) = Some (Inr s2)"
    by (auto split: option.splits sum.splits)
  from restart_rounds_rank_independent [OF r1 r2] c1
  have "round_counts (trace s2) = [3, 1]" by simp
  with r1 r2 c1 show ?thesis by blast
qed

subsection \<open>The graph of the validation losses\<close>

lemmas demo_val_eval =
  validation_def val_local_def val_reduce_def val_loop.simps val_body_def val_window_graph_eq
  demo_state_5000_def demo_val_state_def outcome_state_def outcome_error_def

lemma val_body_calls:
  assumes "val_body c a val_item st = Inr st'"
  shows "\<exists>G D gr. graph_var st = Some gr
     \<and> trace st' = trace st @
         [ModelCall G (images val_item) D (scale_intrinsics (intrinsics val_item))
            (val_window_graph (n_frames a)) (iters a) 2,
          GeodesicLossCall gr None,
          FlowLossCall (val_window_graph (n_frames a))]"
proof -
  from assms obtain st1 where i: "init_estimates c (se3_inv_all c (poses val_item)) (disps val_item) st = Inr st1"
    by (auto simp: val_body_def Let_def split: sum.splits)
  from init_estimates_Inr [OF i] obtain G where
    st1: "st1 = st\<lparr>Gs := G, disp0 := ones_like (downsample (disps val_item))\<rparr>" by blast
  from assms i show ?thesis
    unfolding val_body_def st1
    by (auto simp: Let_def emit_def split: prod.splits option.splits)
qed

text \<open>
  Claim C5, evaluated where it fails. Outer step 5000 on rank 0 of two, with the coin of
  line 123 at 0.1 (so the training graph is the heuristic one, here the chain 0 - 1 - 2)
  and two validation batches. In both validation batches the network and the flow loss
  receive the window graph, but the geodesic loss (the call with \<open>do_scale\<close> left at its
  default) receives the chain, the graph left over from the training part of the step.
\<close>

theorem validation_geodesic_on_training_graph:
  "map_option (trace \<circ> outcome_state)
     (train_step demo_collab 0 demo_args [demo_item 2, demo_item 3] (1 / 10) [(7, 0, 0)]
        (demo_item 1) demo_state_5000)
   = Some
      [ZeroGrad,
       ModelCall [[1, - 2, - 2]] 0 [[[[1, 1]], [[1, 1]], [[1, 1]]]]
        [[[1, 1, 1 / 2, 1 / 2], [1, 1, 1 / 2, 1 / 2], [1, 1, 1 / 2, 1 / 2]]]
        [(0, [1]), (1, [0, 2]), (2, [1])] 15 2,
       GeodesicLossCall [(0, [1]), (1, [0, 2]), (2, [1])] (Some False),
       ResidualLossCall, FlowLossCall [(0, [1]), (1, [0, 2]), (2, [1])],
       Backward 10, ClipGradNorm (5 / 2), OptimizerStep, SchedulerStep,
       ModelEval,
       ModelCall [[2, - 2, - 2]] 0 [[[[1, 1]], [[1, 1]], [[1, 1]]]]
        [[[1, 1, 1 / 2, 1 / 2], [1, 1, 1 / 2, 1 / 2], [1, 1, 1 / 2, 1 / 2]]]
        [(0, [1, 2]), (1, [0, 2]), (2, [0, 1])] 15 2,
       GeodesicLossCall [(0, [1]), (1, [0, 2]), (2, [1])] None,
       FlowLossCall [(0, [1, 2]), (1, [0, 2]), (2, [0, 1])],
       ModelCall [[3, - 2, - 2]] 0 [[[[1, 1]], [[1, 1]], [[1, 1]]]]
        [[[1, 1, 1 / 2, 1 / 2], [1, 1, 1 / 2, 1 / 2], [1, 1, 1 / 2, 1 / 2]]]
        [(0, [1, 2]), (1, [0, 2]), (2, [0, 1])] 15 2,
       GeodesicLossCall [(0, [1]), (1, [0, 2]), (2, [1])] None,
       FlowLossCall [(0, [1, 2]), (1, [0, 2]), (2, [0, 1])], Barrier,
       AllReduceSum 5, AllReduceSum 0, AllReduceSum 0,
       WandbLogVal (5 / 2) 0 0 5000, ModelTrain,
       WandbLogTrain
        \<lparr>log_geo_loss = 1, log_res_loss = 0, log_flo_loss = 0, log_loss = 10,
           log_lr = 0, log_rot_error = Some 1, log_tr_error = Some 0,
           log_flo_error = Some 0\<rparr>
        5001,
       LoggerPush
        [''rot_error'' \<mapsto> 1, ''tr_error'' \<mapsto> 0, ''residual'' \<mapsto> 0, ''f_error'' \<mapsto> 0]]
   \<and> val_window_graph 3 = [(0, [1, 2]), (1, [0, 2]), (2, [0, 1])]"
  by (simp add: demo_eval demo_val_eval)

subsection \<open>The reduction of the validation metrics\<close>

lemma val_reduce_local_only:
  assumes "val_reduce gpu a peers st = Inr st'"
  shows "\<exists>vb. v_batch st = Some vb
     \<and> val_rot_error st' = val_rot_error st / real_of_int (vb * world_size a)
     \<and> val_tr_error st' = val_tr_error st / real_of_int (vb * world_size a)
     \<and> val_f_error st' = val_f_error st / real_of_int (vb * world_size a)
     \<and> filter is_val_report (trace st') = filter is_val_report (trace st) @
         (if gpu = 0
          then [WandbLogVal (val_rot_error st') (val_tr_error st') (val_f_error st') (total_steps st)]
          else [])"
  using assms
  by (auto simp: val_reduce_def Let_def emit_def split: option.splits if_splits)

lemma val_loop_v_batch:
  assumes "val_loop c a i val_loader st = Inr st'" and "val_loader \<noteq> []" and "i \<le> 500"
  shows "v_batch st' = Some (min (i + int (length val_loader) - 1) 500)"
  using assms
proof (induction val_loader arbitrary: i st)
  case Nil
  then show ?case by simp
next
  case (Cons val_item rest)
  let ?st0 = "st\<lparr>v_batch := Some i\<rparr>"
  show ?case
  proof (cases "i = 500")
    case True
    with Cons.prems show ?thesis by auto
  next
    case False
    with Cons.prems obtain st1 where b: "val_body c a val_item ?st0 = Inr st1"
      and l: "val_loop c a (i + 1) rest st1 = Inr st'"
      by (auto simp: Let_def split: sum.splits)
    show ?thesis
    proof (cases rest)
      case Nil
      have "v_batch st1 = Some i"
        using b by (auto simp: val_body_def init_estimates_def Let_def emit_def
            split: sum.splits prod.splits option.splits)
      with l Nil Cons.prems(3) show ?thesis by simp
    next
      case (Cons x xs)
      with Cons.IH [OF l] False Cons.prems(3) show ?thesis by auto
    qed
  qed
qed

text \<open>
  Claim C1, evaluated where it fails. Two processes, three validation batches each, with
  rotation errors 1, 2, 3 on rank 0 and 4, 5, 6 on rank 1. After the pass the all-reduced
  tensor holds 21 on both ranks, but the value each rank keeps, and rank 0 reports, is its
  own sum divided by the last loop index times the world size: 6 / (2 * 2) on rank 0 and
  15 / (2 * 2) on rank 1, where the claim gives (6 + 15) / (3 * 2) = 7 / 2.
\<close>

theorem validation_reports_local_sum:
  "map_option (map (val_rot_error \<circ> outcome_state))
     (spmd_validation demo_collab demo_args
        [([demo_item 1, demo_item 2, demo_item 3], demo_val_state),
         ([demo_item 4, demo_item 5, demo_item 6], demo_val_state)])
     = Some [3 / 2, 15 / 4]
   \<and> map_option (map (filter is_val_report \<circ> trace \<circ> outcome_state))
     (spmd_validation demo_collab demo_args
        [([demo_item 1, demo_item 2, demo_item 3], demo_val_state),
         ([demo_item 4, demo_item 5, demo_item 6], demo_val_state)])
     = Some [[WandbLogVal (3 / 2) 0 0 5000], []]
   \<and> map_option (map (tensor_val_rot_err \<circ> outcome_state))
     (spmd_validation demo_collab demo_args
        [([demo_item 1, demo_item 2, demo_item 3], demo_val_state),
         ([demo_item 4, demo_item 5, demo_item 6], demo_val_state)])
     = Some [Some 21, Some 21]
   \<and> ((1 + 2 + 3) + (4 + 5 + 6)) / (3 * 2) = (7 / 2 :: real)"
  by (simp add: spmd_validation_def contribution_def demo_eval demo_val_eval)

subsection \<open>A non-positive restart probability\<close>

text \<open>
  Claim C4 fails: with \<^verbatim>\<open>--restart_prob 0\<close> the run of rank 0 is not rejected before training;
  it clears the gradients, clips, steps the optimizer and the scheduler, and only then
  stops, on the unbound \<^verbatim>\<open>geo_metrics\<close>.
\<close>

theorem nonpositive_restart_prob_not_rejected:
  "map_option outcome_error
     (main demo_collab (default_cli\<lparr>cli_n_frames := Some 3, cli_restart_prob := Some 0\<rparr>) 0 []
        demo_epochs) = Some (Some NameError)
   \<and> map_option (trace \<circ> outcome_state)
     (main demo_collab (default_cli\<lparr>cli_n_frames := Some 3, cli_restart_prob := Some 0\<rparr>) 0 []
        demo_epochs) = Some [ZeroGrad, ClipGradNorm (5 / 2), OptimizerStep, SchedulerStep]"
  by (simp add: main_def train_def train_loop.simps demo_epochs_def parse_args_def
      with_default_def default_cli_def demo_eval demo_val_eval)

subsection \<open>The order of the training samples\<close>

lemma train_pass_order_fixed:
  "train_pass_order randperm a gpu db_len n = train_pass_order randperm a gpu db_len m"
  by (simp add: train_pass_order_def)

lemmas sampler_eval =
  train_pass_order_def val_pass_order_def train_sampler_def val_sampler_def DistributedSampler_def
  set_epoch_def sampler_iter_def num_samples_def total_size_def py_slice_def demo_randperm_def
  Let_def demo_args_simps

text \<open>
  Claim C6, evaluated where it fails. A training set of six samples on two ranks: the
  first and the second pass over the training loader visit the samples of each rank in
  the same order (here 1, 3, 5 on rank 0), although the sampler was built with
  \<^verbatim>\<open>shuffle=True\<close>; a sampler whose epoch had been set to 1 would give another order. The
  two ranks' subsets are disjoint, and the validation order is fixed, as claimed.
\<close>

theorem training_order_repeats:
  "train_pass_order demo_randperm demo_args 0 6 0 = [1, 3, 5]
   \<and> train_pass_order demo_randperm demo_args 0 6 1 = [1, 3, 5]
   \<and> train_pass_order demo_randperm demo_args 1 6 0 = [2, 4, 0]
   \<and> train_pass_order demo_randperm demo_args 1 6 1 = [2, 4, 0]
   \<and> sampler_iter demo_randperm (set_epoch 1 (train_sampler demo_args 0 6)) = [2, 4, 0]
   \<and> val_pass_order demo_randperm demo_args 0 6 0 = [0, 2, 4]
   \<and> val_pass_order demo_randperm demo_args 0 6 1 = [0, 2, 4]"
  by (simp add: sampler_eval upt_rec rotate_def rotate1_def)

subsection \<open>Every outcome of a step\<close>

lemma quiet_fromI:
  assumes "trace (outcome_state res) = trace st @ es" and "filter grad_event es = []"
    and "rng (outcome_state res) = rng st"
  shows "quiet_from st res"
  using assms unfolding quiet_from_def by blast

lemma quiet_from_trans:
  assumes "quiet_from st (Inr st1)" and "quiet_from st1 res"
  shows "quiet_from st res"
proof -
  from assms(1) obtain es where 1: "trace st1 = trace st @ es" "filter grad_event es = []"
    "rng st1 = rng st" by (auto simp: quiet_from_def outcome_state_def)
  from assms(2) obtain es' where 2: "trace (outcome_state res) = trace st1 @ es'"
    "filter grad_event es' = []" "rng (outcome_state res) = rng st1"
    by (auto simp: quiet_from_def)
  from 1 2 show ?thesis by (intro quiet_fromI [of _ _ "es @ es'"]) simp_all
qed

lemma quiet_from_bind:
  assumes "quiet_from st r" and "\<And>s. r = Inr s \<Longrightarrow> quiet_from s (f s)"
  shows "quiet_from st (case r of Inl e \<Rightarrow> Inl e | Inr s \<Rightarrow> f s)"
proof (cases r)
  case (Inl e)
  with assms(1) show ?thesis by simp
next
  case (Inr s)
  with assms show ?thesis by (auto intro: quiet_from_trans)
qed

lemma init_estimates_quiet: "quiet_from st (init_estimates c Ps ds st)"
  by (auto simp: init_estimates_def Let_def quiet_from_def outcome_state_def split: sum.splits)

lemma val_body_quiet: "quiet_from st (val_body c a val_item st)"
proof (cases "init_estimates c (se3_inv_all c (poses val_item)) (disps val_item) st")
  case (Inl e)
  with init_estimates_quiet [of st c "se3_inv_all c (poses val_item)" "disps val_item"]
  show ?thesis by (simp add: val_body_def Let_def)
next
  case (Inr s)
  from init_estimates_Inr [OF Inr] obtain G where
    s: "s = st\<lparr>Gs := G, disp0 := ones_like (downsample (disps val_item))\<rparr>" by blast
  show ?thesis
    by (auto simp: val_body_def Inr s Let_def emit_def quiet_from_def outcome_state_def
        grad_event_def split: prod.splits option.splits)
qed

lemma val_loop_quiet: "quiet_from st (val_loop c a i val_loader st)"
proof (induction val_loader arbitrary: i st)
  case Nil
  show ?case by (simp add: quiet_from_def outcome_state_def)
next
  case (Cons val_item rest)
  let ?st0 = "st\<lparr>v_batch := Some i\<rparr>"
  have 0: "quiet_from st (Inr ?st0)" by (simp add: quiet_from_def outcome_state_def)
  have "quiet_from ?st0 (if i = 500 then Inr ?st0
      else case val_body c a val_item ?st0 of Inl e \<Rightarrow> Inl e
           | Inr st' \<Rightarrow> val_loop c a (i + 1) rest st')"
  proof (cases "i = 500")
    case True
    then show ?thesis by (simp add: quiet_from_def outcome_state_def)
  next
    case False
    then show ?thesis
      using quiet_from_bind [OF val_body_quiet [of ?st0 c a val_item], of "val_loop c a (i + 1) rest"]
        Cons.IH by simp
  qed
  from quiet_from_trans [OF 0 this] show ?case by (simp add: Let_def)
qed

lemma val_local_quiet: "quiet_from st (val_local c a val_loader st)"
proof -
  let ?st0 = "(emit ModelEval st)\<lparr>val_rot_error := 0, val_tr_error := 0, val_f_error := 0\<rparr>"
  have "quiet_from st (Inr ?st0)"
    by (simp add: quiet_from_def outcome_state_def emit_def grad_event_def)
  from quiet_from_trans [OF this val_loop_quiet [of ?st0 c a 0 val_loader]]
  show ?thesis by (simp add: val_local_def Let_def)
qed

lemma val_reduce_quiet: "quiet_from st (val_reduce gpu a peers st)"
  by (auto simp: val_reduce_def Let_def emit_def quiet_from_def outcome_state_def grad_event_def
      split: option.splits)

lemma validation_quiet: "quiet_from st (validation c gpu a val_loader peers st)"
  unfolding validation_def
  by (rule quiet_from_bind [OF val_local_quiet val_reduce_quiet])

lemma log_step_quiet: "quiet_from st (log_step c st)"
  by (auto simp: log_step_def Let_def emit_def quiet_from_def outcome_state_def grad_event_def
      split: option.splits)

lemma finish_step_quiet:
  "quiet_from
     (st\<lparr>trace := trace st @ [ClipGradNorm (clip a), OptimizerStep, SchedulerStep]\<rparr>)
     (finish_step c gpu a val_loader peers st)"
proof -
  let ?s3 = "st\<lparr>trace := trace st @ [ClipGradNorm (clip a), OptimizerStep, SchedulerStep]\<rparr>"
  have triv: "\<And>e s. trace s = trace ?s3 \<Longrightarrow> rng s = rng st \<Longrightarrow> quiet_from ?s3 (Inl (e, s))"
    by (simp add: quiet_from_def outcome_state_def)
  show ?thesis
  proof (cases "geo_metrics st = None \<or> res_metrics st = None \<or> flo_metrics st = None")
    case True
    then show ?thesis
      by (auto simp: finish_step_def Let_def emit_def quiet_from_def outcome_state_def
          split: option.splits)
  next
    case False
    then obtain gm rm fm where m: "geo_metrics st = Some gm" "res_metrics st = Some rm"
      "flo_metrics st = Some fm" by auto
    let ?m = "Map.empty ++ gm ++ rm ++ fm"
    define st1 where "st1 = st\<lparr>trace := trace st @ [ClipGradNorm (clip a), OptimizerStep, SchedulerStep],
       metrics_var := ?m, rot_error := ?m ''rot_error'', tr_error := ?m ''tr_error'',
       f_error := ?m ''f_error''\<rparr>"
    let ?v = "if total_steps st1 \<noteq> 0 \<and> total_steps st1 mod 5000 = 0
              then validation c gpu a val_loader peers st1 else Inr st1"
    let ?after = "\<lambda>st. let st = st\<lparr>total_steps := total_steps st + 1\<rparr> in
          case (if gpu = 0 then log_step c st else Inr st) of
            Inl e \<Rightarrow> Inl e
          | Inr st \<Rightarrow>
          let st = (if total_steps st mod 10000 = 0 \<and> gpu = 0
                    then emit (TorchSave (total_steps st)) st else st)
          in Inr (if total_steps st \<ge> steps a then st\<lparr>should_keep_training := False\<rparr> else st)"
    have unf: "finish_step c gpu a val_loader peers st =
       (case ?v of Inl e \<Rightarrow> Inl e | Inr st \<Rightarrow> ?after st)"
      by (simp add: finish_step_def Let_def emit_def m st1_def)
    have q1: "quiet_from ?s3 (Inr st1)"
      by (simp add: quiet_from_def outcome_state_def st1_def)
    have qv: "quiet_from st1 ?v"
      using validation_quiet [of st1 c gpu a val_loader peers]
      by (simp add: quiet_from_def outcome_state_def)
    have qa: "quiet_from s (?after s)" for s
    proof -
      let ?s' = "s\<lparr>total_steps := total_steps s + 1\<rparr>"
      have a: "quiet_from s (Inr ?s')" by (simp add: quiet_from_def outcome_state_def)
      have l: "quiet_from ?s' (if gpu = 0 then log_step c ?s' else Inr ?s')"
        using log_step_quiet [of ?s' c] by (simp add: quiet_from_def outcome_state_def)
      have f: "quiet_from t
         (let st = (if total_steps t mod 10000 = 0 \<and> gpu = 0
                    then emit (TorchSave (total_steps t)) t else t)
          in Inr (if total_steps st \<ge> steps a then st\<lparr>should_keep_training := False\<rparr> else st))"
        for t :: "('a, 'b, 'c) tstate"
        by (simp add: quiet_from_def outcome_state_def Let_def emit_def grad_event_def)
      from quiet_from_trans [OF a quiet_from_bind [OF l f]]
      show "quiet_from s (?after s)" by (simp add: Let_def)
    qed
    from quiet_from_trans [OF q1 quiet_from_bind [OF qv qa]] show ?thesis
      unfolding unf by simp
  qed
qed

lemma finish_step_shape:
  "\<exists>tail. trace (outcome_state (finish_step c gpu a val_loader peers st)) =
             trace st @ [ClipGradNorm (clip a), OptimizerStep, SchedulerStep] @ tail
      \<and> filter grad_event tail = []
      \<and> rng (outcome_state (finish_step c gpu a val_loader peers st)) = rng st"
  using finish_step_quiet [of st a c gpu val_loader peers]
  by (auto simp: quiet_from_def)

lemma init_estimates_ok:
  assumes "list_all (\<lambda>row. 2 \<le> length row) (poses it)"
  shows "\<exists>G. init_estimates c (se3_inv_all c (poses it)) ds st =
           Inr (st\<lparr>Gs := G, disp0 := ones_like (downsample ds)\<rparr>)"
proof -
  let ?Ps = "se3_inv_all c (poses it)"
  from assms have l: "\<not> list_ex (\<lambda>row. length row < 1) ?Ps" "\<not> list_ex (\<lambda>row. length row < 2) ?Ps"
    by (auto simp: list_all_iff list_ex_iff se3_inv_all_def)
  let ?G1 = "map2 (\<lambda>g row. g[0 := row ! 0]) (identity_like c ?Ps) ?Ps"
  let ?G2 = "map2 (\<lambda>g row. take 1 g @ replicate (length g - 1) (row ! 1)) ?G1 ?Ps"
  have f0: "set_frame0 (identity_like c ?Ps) ?Ps = Inr ?G1"
    using l(1) by (simp add: set_frame0_def)
  have f1: "set_frames_from1 ?G1 ?Ps = Inr ?G2"
    using l(2) by (simp add: set_frames_from1_def)
  have "init_estimates c ?Ps ds st = Inr (st\<lparr>Gs := ?G2, disp0 := ones_like (downsample ds)\<rparr>)"
    by (simp add: init_estimates_def Let_def f0 f1)
  then show ?thesis by blast
qed

lemma run_rounds_length:
  assumes "run_rounds c a it Ps gr n st = Inr st'"
  shows "length (trace st') = length (trace st) + 5 * n"
  using assms
proof (induction n arbitrary: st)
  case 0
  then show ?case by simp
next
  case (Suc n)
  let ?st1 = "st\<lparr>rng := snd (rng_random c (rng st))\<rparr>"
  from Suc.prems obtain st2 where r1: "refinement_round c a it Ps gr ?st1 = Inr st2"
    and r2: "run_rounds c a it Ps gr n st2 = Inr st'" by (rule run_rounds_Suc_Inr)
  have "length (trace st2) = length (trace st) + 5"
    using refinement_round_Inr(1) [OF r1] by (simp add: round_events_def Let_def)
  with Suc.IH [OF r2] show ?case by simp
qed

lemma train_step_rounds:
  assumes "list_all (\<lambda>row. 2 \<le> length row) (poses it)"
    and "rounds_spec c (restart_prob a) 0 (rng st) n"
    and "n = 0 \<or> model_nonempty c a"
  shows "\<exists>res rounds tail. train_step c gpu a val_loader coin peers it st = Some res
      \<and> trace (outcome_state res) = trace st @ [ZeroGrad] @ rounds
           @ [ClipGradNorm (clip a), OptimizerStep, SchedulerStep] @ tail
      \<and> length rounds = 5 * n \<and> backward_count rounds = n \<and> filter is_update rounds = []
      \<and> filter grad_event tail = []
      \<and> rng (outcome_state res) = rng_after c n (rng st)"
proof -
  let ?Ps = "se3_inv_all c (poses it)" and ?gr = "choose_graph c a coin it"
  let ?s = "(emit ZeroGrad st)\<lparr>graph_var := Some ?gr\<rparr>"
  from init_estimates_ok [OF assms(1), of c "disps it" ?s] obtain G where
    i: "init_estimates c ?Ps (disps it) ?s = Inr (?s\<lparr>Gs := G, disp0 := ones_like (downsample (disps it))\<rparr>)"
    by blast
  let ?st0 = "?s\<lparr>Gs := G, disp0 := ones_like (downsample (disps it))\<rparr>"
  have s0: "trace ?st0 = trace st @ [ZeroGrad]" "rng ?st0 = rng st"
    by (simp_all add: emit_def)
  obtain stL where rr: "run_rounds c a it ?Ps ?gr n ?st0 = Inr stL"
  proof (cases "n = 0")
    case True
    then show ?thesis using that by simp
  next
    case False
    with assms(3) have "model_nonempty c a" by simp
    from run_rounds_total [OF this] show ?thesis using that by blast
  qed
  from assms(2) have sp: "rounds_spec c (restart_prob a) 0 (rng ?st0) n" by (simp add: s0)
  from rounds_restart_loop [OF sp rr]
  have ts: "train_step c gpu a val_loader coin peers it st =
      Some (finish_step c gpu a val_loader peers stL)"
    by (simp add: train_step_def Let_def i)
  from run_rounds_Inr [OF rr] obtain es where es: "trace stL = trace ?st0 @ es"
    "backward_count es = n" "filter is_update es = []"
    and gL: "rng stL = rng_after c n (rng ?st0)" by blast
  from run_rounds_length [OF rr] es(1) have len: "length es = 5 * n" by simp
  from finish_step_shape [of c gpu a val_loader peers stL] obtain tail where
    tl: "trace (outcome_state (finish_step c gpu a val_loader peers stL)) =
           trace stL @ [ClipGradNorm (clip a), OptimizerStep, SchedulerStep] @ tail"
      "filter grad_event tail = []"
      "rng (outcome_state (finish_step c gpu a val_loader peers stL)) = rng stL" by blast
  have "trace (outcome_state (finish_step c gpu a val_loader peers stL)) =
      trace st @ [ZeroGrad] @ es @ [ClipGradNorm (clip a), OptimizerStep, SchedulerStep] @ tail"
    using tl(1) es(1) s0(1) by simp
  with ts es len tl gL s0(2) show ?thesis by auto
qed

lemma restart_loop_diverges:
  assumes "model_nonempty c a" and "0 < restart_prob a"
    and "\<forall>i. draw c (rng st) i < restart_prob a"
  shows "restart_loop c a it Ps gr 0 st = None"
proof (rule ccontr)
  assume "restart_loop c a it Ps gr 0 st \<noteq> None"
  then obtain res where res: "restart_loop c a it Ps gr 0 st = Some res" by auto
  from restart_loop_rounds [OF res] obtain m where
    m: "case res of Inr _ \<Rightarrow> rounds_spec c (restart_prob a) 0 (rng st) m | Inl _ \<Rightarrow> True"
       "run_rounds c a it Ps gr m st = res" by blast
  from run_rounds_total [OF assms(1), of it Ps gr m st] m(2) obtain st' where "res = Inr st'"
    by auto
  with m(1) have sp: "rounds_spec c (restart_prob a) 0 (rng st) m" by simp
  show False
  proof (cases m)
    case 0
    with sp assms(2) show False by simp
  next
    case (Suc k)
    with sp assms(3) show False
      using rounds_spec_draws [of c "restart_prob a" 0 "rng st" k] by blast
  qed
qed

lemma iter_nonempty: "model_nonempty iter_collab demo_args"
  by (simp add: model_nonempty_def iter_collab_def demo_args_simps)

lemma iter_draws:
  "draw iter_collab (0::nat) 0 = 1 / 10" "draw iter_collab (0::nat) (Suc 0) = 1 / 10"
  "draw iter_collab (0::nat) 2 = 9 / 10"
  by (simp_all add: draw_def iter_collab_def demo_collab_def numeral_2_eq_2)

lemma demo_item_frames: "list_all (\<lambda>row. 2 \<le> length row) (poses (demo_item x))"
  by (simp add: demo_item_def)

subsection \<open>The number of refinement rounds of an outer step\<close>

text \<open>
  Claim C2. Take any outer training step on a batch with at least two frames per sample,
  with a network that returns non-empty estimate sequences on the calls the script makes
  (\<^verbatim>\<open>num_steps=args.iters\<close>, \<^verbatim>\<open>fixedp=2\<close>), and let \<open>p\<close> be the restart probability. However
  the step ends (normally or with an exception raised after the rounds), its calls are
  \<^verbatim>\<open>zero_grad\<close>, the calls of the rounds, then \<^verbatim>\<open>clip_grad_norm_\<close>, \<^verbatim>\<open>optimizer.step\<close>,
  \<^verbatim>\<open>scheduler.step\<close> and a tail without gradient calls, where:
  if \<open>p \<le> 0\<close> there are no rounds and no draw is consumed;
  if \<open>p > 0\<close> and exactly the first \<open>n\<close> draws of the restart stream are strictly less than
  \<open>p\<close> (draw \<open>n\<close> is the first that is not), there are exactly \<open>1 + n\<close> rounds, hence at least
  one, of five calls each with one gradient computation, and \<open>1 + n\<close> draws are consumed;
  if \<open>p > 0\<close> and every draw is less than \<open>p\<close>, the step never ends. (The geometric law
  of the count for independent uniform draws follows from this characterisation; it is
  not part of the statement.)
\<close>

theorem outer_step_round_count:
  assumes "model_nonempty c a" and "list_all (\<lambda>row. 2 \<le> length row) (poses it)"
  shows "(restart_prob a \<le> 0 \<longrightarrow>
          (\<exists>res tail. train_step c gpu a val_loader coin peers it st = Some res
             \<and> trace (outcome_state res) = trace st
                  @ [ZeroGrad, ClipGradNorm (clip a), OptimizerStep, SchedulerStep] @ tail
             \<and> filter grad_event tail = []
             \<and> rng (outcome_state res) = rng st))
    \<and> (0 < restart_prob a \<and> (\<forall>i<n. draw c (rng st) i < restart_prob a)
         \<and> \<not> draw c (rng st) n < restart_prob a \<longrightarrow>
          (\<exists>res rounds tail. train_step c gpu a val_loader coin peers it st = Some res
             \<and> trace (outcome_state res) = trace st @ [ZeroGrad] @ rounds
                  @ [ClipGradNorm (clip a), OptimizerStep, SchedulerStep] @ tail
             \<and> length rounds = 5 * (1 + n) \<and> backward_count rounds = 1 + n
             \<and> filter is_update rounds = [] \<and> filter grad_event tail = []
             \<and> rng (outcome_state res) = rng_after c (1 + n) (rng st)))
    \<and> (0 < restart_prob a \<and> (\<forall>i. draw c (rng st) i < restart_prob a) \<longrightarrow>
          train_step c gpu a val_loader coin peers it st = None)"
proof (intro conjI impI)
  assume "restart_prob a \<le> 0"
  then have sp: "rounds_spec c (restart_prob a) 0 (rng st) 0" by simp
  from train_step_rounds [OF assms(2) sp, of gpu val_loader coin peers]
  show "\<exists>res tail. train_step c gpu a val_loader coin peers it st = Some res
             \<and> trace (outcome_state res) = trace st
                  @ [ZeroGrad, ClipGradNorm (clip a), OptimizerStep, SchedulerStep] @ tail
             \<and> filter grad_event tail = []
             \<and> rng (outcome_state res) = rng st"
    by auto
next
  assume "0 < restart_prob a \<and> (\<forall>i<n. draw c (rng st) i < restart_prob a)
         \<and> \<not> draw c (rng st) n < restart_prob a"
  then have sp: "rounds_spec c (restart_prob a) 0 (rng st) (Suc n)"
    using rounds_spec_draws [of c "restart_prob a" 0 "rng st" n] by blast
  from train_step_rounds [OF assms(2) sp, of gpu val_loader coin peers] assms(1)
  show "\<exists>res rounds tail. train_step c gpu a val_loader coin peers it st = Some res
             \<and> trace (outcome_state res) = trace st @ [ZeroGrad] @ rounds
                  @ [ClipGradNorm (clip a), OptimizerStep, SchedulerStep] @ tail
             \<and> length rounds = 5 * (1 + n) \<and> backward_count rounds = 1 + n
             \<and> filter is_update rounds = [] \<and> filter grad_event tail = []
             \<and> rng (outcome_state res) = rng_after c (1 + n) (rng st)"
    by simp
next
  assume h: "0 < restart_prob a \<and> (\<forall>i. draw c (rng st) i < restart_prob a)"
  let ?s = "(emit ZeroGrad st)\<lparr>graph_var := Some (choose_graph c a coin it)\<rparr>"
  from init_estimates_ok [OF assms(2), of c "disps it" ?s] obtain G where
    i: "init_estimates c (se3_inv_all c (poses it)) (disps it) ?s =
          Inr (?s\<lparr>Gs := G, disp0 := ones_like (downsample (disps it))\<rparr>)" by blast
  let ?st0 = "?s\<lparr>Gs := G, disp0 := ones_like (downsample (disps it))\<rparr>"
  have "rng ?st0 = rng st" by (simp add: emit_def)
  with h have "\<forall>i. draw c (rng ?st0) i < restart_prob a" by simp
  from restart_loop_diverges [OF assms(1) _ this] h
  have "restart_loop c a it (se3_inv_all c (poses it)) (choose_graph c a coin it) 0 ?st0 = None"
    by simp
  then show "train_step c gpu a val_loader coin peers it st = None"
    by (simp add: train_step_def Let_def i)
qed

theorem outer_step_round_count_witness:
  "\<exists>res rounds tail.
     train_step iter_collab 0 demo_args [] (7 / 10) [] (demo_item 1) (initial_state iter_collab 0)
       = Some res
   \<and> trace (outcome_state res) = trace (initial_state iter_collab 0) @ [ZeroGrad] @ rounds
        @ [ClipGradNorm (clip demo_args), OptimizerStep, SchedulerStep] @ tail
   \<and> length rounds = 5 * (1 + 2) \<and> backward_count rounds = 1 + 2"
proof -
  let ?st = "initial_state iter_collab 0"
  have g: "rng ?st = (0::nat)"
    by (simp add: initial_state_def iter_collab_def demo_collab_def)
  have hyp: "0 < restart_prob demo_args
       \<and> (\<forall>i<2. draw iter_collab (rng ?st) i < restart_prob demo_args)
       \<and> \<not> draw iter_collab (rng ?st) 2 < restart_prob demo_args"
    unfolding g by (simp add: demo_args_simps iter_draws less_2_cases_iff)
  from outer_step_round_count [OF iter_nonempty demo_item_frames [of 1],
      where gpu = 0 and val_loader = "[]" and coin = "7 / 10" and peers = "[]" and st = ?st
        and n = 2] hyp
  show ?thesis by blast
qed

subsection \<open>A non-positive restart probability is accepted\<close>

text \<open>
  Claim C4 as amended. A restart probability \<open>p \<le> 0\<close> given on the command line is
  accepted as it is (the parser has no range check and \<^verbatim>\<open>main\<close> starts \<^verbatim>\<open>train\<close> with it);
  every outer step (on a batch with at least two frames per sample) then executes zero
  refinement rounds: after \<^verbatim>\<open>zero_grad\<close> its next calls are \<^verbatim>\<open>clip_grad_norm_\<close> with the
  configured maximum, \<^verbatim>\<open>optimizer.step\<close> and \<^verbatim>\<open>scheduler.step\<close>, no gradient is computed
  anywhere in the step and no draw is taken from the restart generator.
\<close>

theorem nonpositive_restart_prob_accepted:
  assumes "cli_restart_prob cl = Some p" and "p \<le> 0"
    and "list_all (\<lambda>row. 2 \<le> length row) (poses it)"
  shows "restart_prob (parse_args cl) = p
    \<and> main c cl gpu val_loader epochs = train c gpu (parse_args cl) val_loader epochs
    \<and> (\<exists>res tail. train_step c gpu (parse_args cl) val_loader coin peers it st = Some res
          \<and> trace (outcome_state res) = trace st
               @ [ZeroGrad, ClipGradNorm (clip (parse_args cl)), OptimizerStep, SchedulerStep]
               @ tail
          \<and> filter grad_event tail = []
          \<and> rng (outcome_state res) = rng st)"
proof -
  have p: "restart_prob (parse_args cl) = p"
    using assms(1) by (simp add: parse_args_def with_default_def)
  with assms(2) have sp: "rounds_spec c (restart_prob (parse_args cl)) 0 (rng st) 0" by simp
  from train_step_rounds [OF assms(3) sp, of gpu val_loader coin peers]
  have "\<exists>res tail. train_step c gpu (parse_args cl) val_loader coin peers it st = Some res
          \<and> trace (outcome_state res) = trace st
               @ [ZeroGrad, ClipGradNorm (clip (parse_args cl)), OptimizerStep, SchedulerStep]
               @ tail
          \<and> filter grad_event tail = []
          \<and> rng (outcome_state res) = rng st"
    by auto
  with p show ?thesis by (simp add: main_def)
qed

theorem nonpositive_restart_prob_accepted_witness:
  "restart_prob (parse_args (default_cli\<lparr>cli_n_frames := Some 3, cli_restart_prob := Some (- 1)\<rparr>))
     = - 1
   \<and> (\<exists>res tail.
        train_step demo_collab 0
          (parse_args (default_cli\<lparr>cli_n_frames := Some 3, cli_restart_prob := Some (- 1)\<rparr>))
          [] (7 / 10) [] (demo_item 1) (initial_state demo_collab 0) = Some res
      \<and> trace (outcome_state res) =
          [ZeroGrad, ClipGradNorm (5 / 2), OptimizerStep, SchedulerStep] @ tail
      \<and> filter grad_event tail = [])"
proof -
  let ?cl = "default_cli\<lparr>cli_n_frames := Some 3, cli_restart_prob := Some (- 1)\<rparr>"
  have h: "cli_restart_prob ?cl = Some (- 1)" "(- 1 :: real) \<le> 0" by simp_all
  have c: "clip (parse_args ?cl) = 5 / 2"
    by (simp add: parse_args_def with_default_def default_cli_def)
  have t: "trace (initial_state demo_collab 0) = []"
    by (simp add: initial_state_def)
  note w = nonpositive_restart_prob_accepted [OF h demo_item_frames [of 1],
      where c = demo_collab and gpu = 0 and val_loader = "[]" and coin = "7 / 10"
        and peers = "[]" and st = "initial_state demo_collab 0" and epochs = demo_epochs]
  from w have 1: "restart_prob (parse_args ?cl) = - 1" by blast
  from w obtain res tail where
    2: "train_step demo_collab 0 (parse_args ?cl) [] (7 / 10) [] (demo_item 1)
          (initial_state demo_collab 0) = Some res"
       "trace (outcome_state res) = trace (initial_state demo_collab 0)
          @ [ZeroGrad, ClipGradNorm (clip (parse_args ?cl)), OptimizerStep, SchedulerStep] @ tail"
       "filter grad_event tail = []"
    by blast
  from 2(2) have "trace (outcome_state res) =
      [ZeroGrad, ClipGradNorm (5 / 2), OptimizerStep, SchedulerStep] @ tail"
    unfolding c t by simp
  with 1 2(1,3) show ?thesis by blast
qed

end
